theory Spec2Isabelle
  imports Main
begin

section \<open>The version-table builder of \<open>sqlalchemy_continuum/table_builder.py\<close>\<close>

text \<open>
  \<open>TableBuilder\<close> derives the schema of a version table from a parent table and the
  versioning options.  Python objects with identity (columns, tables) live in a store and
  are referred to by address; every exception of the source is a value of \<open>py_error\<close>,
  and a function that can raise returns \<open>py_error + result\<close>.
\<close>

subsection \<open>Data model\<close>

type_synonym addr = nat

datatype py_error =
  TypeError | KeyError | ValueError | AttributeError | ArgumentError | CatalogConflictError

text \<open>Option values: a string, or a collection whose members are strings or column objects.\<close>

datatype elem = EStr string | ECol addr

datatype pyval = Str string | Seq "elem list"

datatype sa_type = BigInteger | SmallInteger | OtherType string

text \<open>The values of \<open>Column.autoincrement\<close>: \<open>True\<close>, \<open>False\<close>, \<open>"auto"\<close>, \<open>"ignore_fk"\<close>.\<close>

datatype autoinc = AutoTrue | AutoFalse | Auto | IgnoreFk

fun truthy :: "autoinc \<Rightarrow> bool" where
  "truthy AutoFalse = False"
| "truthy _ = True"

text \<open>
  The attributes of an \<open>sa.Column\<close> that the builder reads or writes.  \<open>unique\<close> and
  \<open>index\<close> are \<open>None\<close> when the constructor was not given them.
\<close>

record column =
  name :: string
  key :: string
  type :: sa_type
  primary_key :: bool
  nullable :: bool
  autoincrement :: autoinc
  unique :: "bool option"
  index :: "bool option"
  onupdate :: "string option"

text \<open>An \<open>sa.Table\<close>: its name, its columns in order, and the \<open>MetaData\<close> object it belongs to.\<close>

record table =
  tbl_name :: string
  tbl_c :: "addr list"
  tbl_metadata :: nat

text \<open>
  The store: column objects and table objects (the identity of an object is its index),
  and the \<open>tables\<close> dictionaries of the \<open>MetaData\<close> objects, keyed by metadata and name.
\<close>

record state =
  cols :: "column list"
  tabs :: "table list"
  tables :: "nat \<times> string \<rightharpoonup> addr"

text \<open>
  The versioning manager as the builder uses it: the method \<open>manager.option(model, name)\<close>,
  the dictionary \<open>manager.options\<close>, and the method \<open>manager.is_excluded_column(model, column)\<close>.
\<close>

record 'm versioning_manager =
  manager_option :: "'m option \<Rightarrow> string \<Rightarrow> py_error + pyval"
  options :: "string \<rightharpoonup> pyval"
  is_excluded_column :: "'m \<Rightarrow> addr \<Rightarrow> py_error + bool"

record 'm table_builder =
  manager :: "'m versioning_manager"
  parent_table :: addr
  model :: "'m option"

text \<open>
  What the builder calls outside this module: Python's \<open>%\<close> on two strings, the items of
  \<open>sa.inspect(model).columns\<close>, and the plugin hook
  \<open>manager.plugins.after_build_version_table_columns(builder, columns)\<close>, which may change
  the list it is given and the column objects.
\<close>

record 'm runtime =
  str_mod :: "string \<Rightarrow> string \<Rightarrow> py_error + string"
  inspect_columns :: "'m \<Rightarrow> py_error + (string \<times> addr) list"
  after_build_version_table_columns ::
    "'m table_builder \<Rightarrow> addr list \<Rightarrow> column list \<Rightarrow> py_error + addr list \<times> column list"

subsection \<open>Library operations on the store\<close>

text \<open>\<open>Column.copy()\<close>: a new object with the attributes of the source.\<close>

definition column_copy :: "addr \<Rightarrow> state \<Rightarrow> addr \<times> state" where
  "column_copy column s = (length (cols s), s\<lparr>cols := cols s @ [cols s ! column]\<rparr>)"

text \<open>An attribute assignment \<open>obj.attr = v\<close>, given as the update of the record.\<close>

definition setattr :: "addr \<Rightarrow> (column \<Rightarrow> column) \<Rightarrow> state \<Rightarrow> state" where
  "setattr a f s = s\<lparr>cols := (cols s)[a := f (cols s ! a)]\<rparr>"

text \<open>
  The constructor \<open>sa.Column(name, type, primary_key=.., nullable=.., index=..,
  autoincrement=..)\<close> with the defaults of the library: \<open>primary_key\<close> is \<open>False\<close>,
  \<open>nullable\<close> is \<open>not primary_key\<close>, \<open>index\<close> and \<open>unique\<close> are \<open>None\<close>,
  \<open>autoincrement\<close> is \<open>"auto"\<close>, the key is the name.  A name that is not a string is
  refused.
\<close>

definition sa_Column ::
  "pyval \<Rightarrow> sa_type \<Rightarrow> bool option \<Rightarrow> bool option \<Rightarrow> bool option \<Rightarrow> autoinc option
     \<Rightarrow> state \<Rightarrow> py_error + addr \<times> state" where
  "sa_Column nm ty pk nl ix ai s =
     (case nm of
        Seq _ \<Rightarrow> Inl ArgumentError
      | Str n \<Rightarrow>
          (let p = (case pk of None \<Rightarrow> False | Some b \<Rightarrow> b) in
           Inr (length (cols s),
                s\<lparr>cols := cols s @
                   [\<lparr>name = n, key = n, type = ty, primary_key = p,
                     nullable = (case nl of None \<Rightarrow> \<not> p | Some b \<Rightarrow> b),
                     autoincrement = (case ai of None \<Rightarrow> Auto | Some a \<Rightarrow> a),
                     unique = None, index = ix, onupdate = None\<rparr>]\<rparr>)))"

text \<open>
  Modelled from the spec: the registration done by the library constructor
  \<open>sa.schema.Table(name, metadata, *columns, extend_existing=..)\<close>, which is not part of
  this module.  A name that is free in the catalog gets a new table; a name that is taken
  is a catalog conflict, unless \<open>extend_existing\<close> is set, in which case the existing
  table is returned with the columns added.
\<close>

definition sa_Table ::
  "string \<Rightarrow> nat \<Rightarrow> addr list \<Rightarrow> bool \<Rightarrow> state \<Rightarrow> py_error + addr \<times> state" where
  "sa_Table nm md columns extend_existing s =
     (case tables s (md, nm) of
        None \<Rightarrow>
          Inr (length (tabs s),
               s\<lparr>tabs := tabs s @ [\<lparr>tbl_name = nm, tbl_c = columns, tbl_metadata = md\<rparr>],
                 tables := (tables s)((md, nm) \<mapsto> length (tabs s))\<rparr>)
      | Some t \<Rightarrow>
          if extend_existing
          then Inr (t, s\<lparr>tabs := (tabs s)[t := (tabs s ! t)\<lparr>tbl_c := tbl_c (tabs s ! t) @ columns\<rparr>]\<rparr>)
          else Inl CatalogConflictError)"




subsection \<open>TableBuilder\<close>

text \<open>
  \<open>option\<close>: \<open>try: return self.manager.option(self.model, name)\<close>,
  \<open>except TypeError: return self.manager.options[name]\<close>.  Only a \<open>TypeError\<close> is caught;
  a name missing from the dictionary raises \<open>KeyError\<close>.
\<close>

definition option :: "'m table_builder \<Rightarrow> string \<Rightarrow> py_error + pyval" where
  "option self nm =
     (case manager_option (manager self) (model self) nm of
        Inr v \<Rightarrow> Inr v
      | Inl e \<Rightarrow>
          if e = TypeError
          then (case options (manager self) nm of None \<Rightarrow> Inl KeyError | Some v \<Rightarrow> Inr v)
          else Inl e)"

text \<open>\<open>table_name\<close>: \<open>self.option('table_name') % self.parent_table.name\<close>.\<close>

definition table_name :: "'m runtime \<Rightarrow> 'm table_builder \<Rightarrow> state \<Rightarrow> py_error + string" where
  "table_name rt self s =
     (case option self ''table_name'' of
        Inl e \<Rightarrow> Inl e
      | Inr (Str t) \<Rightarrow> str_mod rt t (tbl_name (tabs s ! parent_table self))
      | Inr (Seq _) \<Rightarrow> Inl TypeError)"

text \<open>
  The two tests of the generator \<open>parent_columns\<close> on one column: with a model the
  manager's predicate decides, without one the membership of the column object in
  \<open>self.manager.options['exclude']\<close> (read from the dictionary directly).  Membership in a
  string raises \<open>TypeError\<close>.
\<close>

definition skipped :: "'m table_builder \<Rightarrow> addr \<Rightarrow> py_error + bool" where
  "skipped self column =
     (case model self of
        Some m \<Rightarrow> is_excluded_column (manager self) m column
      | None \<Rightarrow>
          (case options (manager self) ''exclude'' of
             None \<Rightarrow> Inl KeyError
           | Some (Str _) \<Rightarrow> Inl TypeError
           | Some (Seq xs) \<Rightarrow> Inr (ECol column \<in> set xs)))"

text \<open>
  The generator, as the sequence of what it yields: the columns of the parent table that
  pass the tests, in order; when a test raises, the sequence ends with that error.
\<close>

fun parent_columns_from :: "'m table_builder \<Rightarrow> addr list \<Rightarrow> (py_error + addr) list" where
  "parent_columns_from self [] = []"
| "parent_columns_from self (column # rest) =
     (case skipped self column of
        Inl e \<Rightarrow> [Inl e]
      | Inr True \<Rightarrow> parent_columns_from self rest
      | Inr False \<Rightarrow> Inr column # parent_columns_from self rest)"

definition parent_columns :: "'m table_builder \<Rightarrow> state \<Rightarrow> (py_error + addr) list" where
  "parent_columns self s = parent_columns_from self (tbl_c (tabs s ! parent_table self))"

text \<open>
  The loop \<open>for key, value in sa.inspect(self.model).columns.items(): if value is column:
  column_copy.key = key\<close>; there is no \<open>break\<close>, so the last match stays.
\<close>

fun find_key :: "addr \<Rightarrow> addr \<Rightarrow> (string \<times> addr) list \<Rightarrow> state \<Rightarrow> state" where
  "find_key column cc [] s = s"
| "find_key column cc ((k, v) # items) s =
     find_key column cc items (if v = column then setattr cc (\<lambda>c. c\<lparr>key := k\<rparr>) s else s)"

definition reflect_column ::
  "'m runtime \<Rightarrow> 'm table_builder \<Rightarrow> addr \<Rightarrow> state \<Rightarrow> py_error + addr \<times> state" where
  "reflect_column rt self column s =
     (let (cc, s1) = column_copy column s;
          s2 = setattr cc (\<lambda>c. c\<lparr>unique := Some False\<rparr>) s1;
          s3 = setattr cc (\<lambda>c. c\<lparr>onupdate := None\<rparr>) s2;
          s4 = (if truthy (autoincrement (cols s3 ! cc))
                then setattr cc (\<lambda>c. c\<lparr>autoincrement := AutoFalse\<rparr>) s3 else s3)
      in case option self ''transaction_column_name'' of
           Inl e \<Rightarrow> Inl e
         | Inr tn \<Rightarrow>
             (let s5 = (if Str (name (cols s4 ! cc)) = tn
                        then setattr cc (\<lambda>c. c\<lparr>nullable := False\<rparr>) s4 else s4);
                  s6 = (if \<not> primary_key (cols s5 ! cc)
                        then setattr cc (\<lambda>c. c\<lparr>nullable := True\<rparr>) s5 else s5)
              in case model self of
                   None \<Rightarrow> Inr (cc, s6)
                 | Some m \<Rightarrow>
                     (case inspect_columns rt m of
                        Inl e \<Rightarrow> Inl e
                      | Inr items \<Rightarrow> Inr (cc, find_key column cc items s6))))"

text \<open>The loop of \<open>reflected_columns\<close> over the generator.\<close>

fun reflect_all ::
  "'m runtime \<Rightarrow> 'm table_builder \<Rightarrow> (py_error + addr) list \<Rightarrow> addr list \<Rightarrow> state
     \<Rightarrow> py_error + addr list \<times> state" where
  "reflect_all rt self [] columns s = Inr (columns, s)"
| "reflect_all rt self (Inl e # rest) columns s = Inl e"
| "reflect_all rt self (Inr column # rest) columns s =
     (case reflect_column rt self column s of
        Inl e \<Rightarrow> Inl e
      | Inr (cc, s') \<Rightarrow> reflect_all rt self rest (columns @ [cc]) s')"

definition reflected_columns ::
  "'m runtime \<Rightarrow> 'm table_builder \<Rightarrow> state \<Rightarrow> py_error + addr list \<times> state" where
  "reflected_columns rt self s =
     (case option self ''transaction_column_name'' of
        Inl e \<Rightarrow> Inl e
      | Inr tn \<Rightarrow>
          (case reflect_all rt self (parent_columns self s) [] s of
             Inl e \<Rightarrow> Inl e
           | Inr (columns, s1) \<Rightarrow>
               if tn \<notin> set (map (\<lambda>c. Str (key (cols s1 ! c))) columns)
               then (case sa_Column tn BigInteger None None None None s1 of
                       Inl e \<Rightarrow> Inl e
                     | Inr (a, s2) \<Rightarrow> Inr (columns @ [a], s2))
               else Inr (columns, s1)))"

definition operation_type_column :: "'m table_builder \<Rightarrow> state \<Rightarrow> py_error + addr \<times> state" where
  "operation_type_column self s =
     (case option self ''operation_type_column_name'' of
        Inl e \<Rightarrow> Inl e
      | Inr nm \<Rightarrow> sa_Column nm SmallInteger None (Some False) (Some True) None s)"

definition transaction_column :: "'m table_builder \<Rightarrow> state \<Rightarrow> py_error + addr \<times> state" where
  "transaction_column self s =
     (case option self ''transaction_column_name'' of
        Inl e \<Rightarrow> Inl e
      | Inr nm \<Rightarrow> sa_Column nm BigInteger (Some True) None (Some True) (Some AutoFalse) s)"

definition end_transaction_column :: "'m table_builder \<Rightarrow> state \<Rightarrow> py_error + addr \<times> state" where
  "end_transaction_column self s =
     (case option self ''end_transaction_column_name'' of
        Inl e \<Rightarrow> Inl e
      | Inr nm \<Rightarrow> sa_Column nm BigInteger None None (Some True) None s)"

definition columns ::
  "'m runtime \<Rightarrow> 'm table_builder \<Rightarrow> state \<Rightarrow> py_error + addr list \<times> state" where
  "columns rt self s =
     (case reflected_columns rt self s of
        Inl e \<Rightarrow> Inl e
      | Inr (data, s1) \<Rightarrow>
          (case transaction_column self s1 of
             Inl e \<Rightarrow> Inl e
           | Inr (t, s2) \<Rightarrow>
               (case option self ''strategy'' of
                  Inl e \<Rightarrow> Inl e
                | Inr st \<Rightarrow>
                    (case (if st = Str ''validity''
                           then (case end_transaction_column self s2 of
                                   Inl e \<Rightarrow> Inl e
                                 | Inr (en, s3) \<Rightarrow> Inr (data @ [t, en], s3))
                           else Inr (data @ [t], s2)) of
                       Inl e \<Rightarrow> Inl e
                     | Inr (data', s3) \<Rightarrow>
                         (case operation_type_column self s3 of
                            Inl e \<Rightarrow> Inl e
                          | Inr (ot, s4) \<Rightarrow> Inr (data' @ [ot], s4))))))"

text \<open>
  The column list that \<open>__call__\<close> hands to the hook: \<open>self.columns if extends is None
  else []\<close>.
\<close>

definition base_columns ::
  "'m runtime \<Rightarrow> 'm table_builder \<Rightarrow> addr option \<Rightarrow> state \<Rightarrow> py_error + addr list \<times> state" where
  "base_columns rt self extends s =
     (case extends of None \<Rightarrow> columns rt self s | Some _ \<Rightarrow> Inr ([], s))"

text \<open>
  \<open>__call__\<close>: the column list, the hook on it, then the table, named
  \<open>extends.name if extends is not None else self.table_name\<close>, in the metadata of the
  parent table, with \<open>extend_existing = (extends is not None)\<close>.
\<close>

definition call ::
  "'m runtime \<Rightarrow> 'm table_builder \<Rightarrow> addr option \<Rightarrow> state \<Rightarrow> py_error + addr \<times> state" where
  "call rt self extends s =
     (case base_columns rt self extends s of
        Inl e \<Rightarrow> Inl e
      | Inr (columns0, s1) \<Rightarrow>
          (case after_build_version_table_columns rt self columns0 (cols s1) of
             Inl e \<Rightarrow> Inl e
           | Inr (columns1, h) \<Rightarrow>
               (let s2 = s1\<lparr>cols := h\<rparr> in
                case (case extends of
                        Some x \<Rightarrow> Inr (tbl_name (tabs s2 ! x))
                      | None \<Rightarrow> table_name rt self s2) of
                  Inl e \<Rightarrow> Inl e
                | Inr nm \<Rightarrow>
                    sa_Table nm (tbl_metadata (tabs s2 ! parent_table self)) columns1
                      (extends \<noteq> None) s2)))"

subsection \<open>Closed forms of what the builder leaves in the store\<close>

text \<open>
  The key that the loop over the mapper's items leaves on the copy of \<open>column\<close>, starting
  from the key \<open>k\<close> of the copy.
\<close>

fun mapped_key :: "addr \<Rightarrow> (string \<times> addr) list \<Rightarrow> string \<Rightarrow> string" where
  "mapped_key column [] k = k"
| "mapped_key column ((k', v) # items) k = mapped_key column items (if v = column then k' else k)"

text \<open>
  The record that \<open>reflect_column\<close> leaves at the new address, given the source record
  \<open>c\<close>, the value \<open>tn\<close> of the option \<open>transaction_column_name\<close> and the final key
  \<open>k\<close>; lemma \<open>reflect_column_closed\<close> relates it to \<open>reflect_column\<close>.
\<close>

definition reflected_value :: "pyval \<Rightarrow> string \<Rightarrow> column \<Rightarrow> column" where
  "reflected_value tn k c =
     c\<lparr>unique := Some False, onupdate := None, autoincrement := AutoFalse,
       nullable := (if primary_key c then (if Str (name c) = tn then False else nullable c) else True),
       key := k\<rparr>"

definition mapper_items :: "'m runtime \<Rightarrow> 'm table_builder \<Rightarrow> (string \<times> addr) list" where
  "mapper_items rt self =
     (case model self of
        None \<Rightarrow> []
      | Some m \<Rightarrow> (case inspect_columns rt m of Inl e \<Rightarrow> [] | Inr items \<Rightarrow> items))"

definition reflected :: "'m runtime \<Rightarrow> 'm table_builder \<Rightarrow> pyval \<Rightarrow> state \<Rightarrow> addr \<Rightarrow> column" where
  "reflected rt self tn s a =
     reflected_value tn (mapped_key a (mapper_items rt self) (key (cols s ! a))) (cols s ! a)"

text \<open>The columns of the parent table that the generator yields.\<close>

definition kept :: "'m table_builder \<Rightarrow> state \<Rightarrow> addr list" where
  "kept self s = [a \<leftarrow> tbl_c (tabs s ! parent_table self). skipped self a = Inr False]"

text \<open>Every column of the parent table is an object of the store.\<close>

definition allocated :: "'m table_builder \<Rightarrow> state \<Rightarrow> bool" where
  "allocated self s = list_all (\<lambda>a. a < length (cols s)) (tbl_c (tabs s ! parent_table self))"

text \<open>
  The records built by the four \<open>sa.Column\<close> calls of the module: the column that
  \<open>reflected_columns\<close> adds when no reflected key is the transaction column name, and the
  columns of the properties \<open>transaction_column\<close>, \<open>end_transaction_column\<close> and
  \<open>operation_type_column\<close>.
\<close>

definition plain_value :: "string \<Rightarrow> column" where
  "plain_value t = \<lparr>name = t, key = t, type = BigInteger, primary_key = False, nullable = True,
     autoincrement = Auto, unique = None, index = None, onupdate = None\<rparr>"

definition transaction_value :: "string \<Rightarrow> column" where
  "transaction_value t = \<lparr>name = t, key = t, type = BigInteger, primary_key = True,
     nullable = False, autoincrement = AutoFalse, unique = None, index = Some True,
     onupdate = None\<rparr>"

definition end_transaction_value :: "string \<Rightarrow> column" where
  "end_transaction_value t = \<lparr>name = t, key = t, type = BigInteger, primary_key = False,
     nullable = True, autoincrement = Auto, unique = None, index = Some True, onupdate = None\<rparr>"

definition operation_type_value :: "string \<Rightarrow> column" where
  "operation_type_value t = \<lparr>name = t, key = t, type = SmallInteger, primary_key = False,
     nullable = False, autoincrement = Auto, unique = None, index = Some True, onupdate = None\<rparr>"

text \<open>An attribute of every column of a returned list, and of one returned column.\<close>

definition described :: "(column \<Rightarrow> 'a) \<Rightarrow> py_error + addr list \<times> state \<Rightarrow> py_error + 'a list" where
  "described f r = (case r of Inl e \<Rightarrow> Inl e | Inr (as, s) \<Rightarrow> Inr (map (\<lambda>a. f (cols s ! a)) as))"

definition returned :: "(column \<Rightarrow> 'a) \<Rightarrow> py_error + addr \<times> state \<Rightarrow> py_error + 'a" where
  "returned f r = (case r of Inl e \<Rightarrow> Inl e | Inr (a, s) \<Rightarrow> Inr (f (cols s ! a)))"


subsection \<open>Example environments\<close>

text \<open>
  An instance of \<open>%\<close> for templates whose directives are \<open>%s\<close> and \<open>%%\<close>: one
  \<open>%s\<close> is replaced by the argument, a second one or none is a \<open>TypeError\<close>; any other
  directive is outside this instance and is given \<open>ValueError\<close>.
\<close>

fun format_s :: "string \<Rightarrow> string \<Rightarrow> bool \<Rightarrow> py_error + string" where
  "format_s [] arg used = (if used then Inr [] else Inl TypeError)"
| "format_s (x # t) arg used =
     (if x \<noteq> CHR ''%'' then map_sum id ((#) x) (format_s t arg used)
      else (case t of
              [] \<Rightarrow> Inl ValueError
            | y # t' \<Rightarrow>
                if y = CHR ''%'' then map_sum id ((#) y) (format_s t' arg used)
                else if y = CHR ''s''
                then (if used then Inl TypeError else map_sum id ((@) arg) (format_s t' arg True))
                else Inl ValueError))"

text \<open>
  The table \<open>invoice\<close> with the columns \<open>id\<close> (primary key), \<open>amount\<close> and
  \<open>created_at\<close>, in the catalog \<open>0\<close>; a builder without a model, whose manager refuses
  the model-scoped lookup with \<open>TypeError\<close> and excludes the column object \<open>created_at\<close>;
  and a runtime without plugins.
\<close>

definition mk_col :: "string \<Rightarrow> bool \<Rightarrow> column" where
  "mk_col n pk = \<lparr>name = n, key = n, type = OtherType ''Integer'', primary_key = pk,
     nullable = \<not> pk, autoincrement = Auto, unique = None, index = None, onupdate = None\<rparr>"

definition invoice :: state where
  "invoice = \<lparr>cols = [mk_col ''id'' True, mk_col ''amount'' False, mk_col ''created_at'' False],
         tabs = [\<lparr>tbl_name = ''invoice'', tbl_c = [0, 1, 2], tbl_metadata = 0\<rparr>],
         tables = [(0, ''invoice'') \<mapsto> 0]\<rparr>"

definition defaults :: "pyval \<Rightarrow> string \<rightharpoonup> pyval" where
  "defaults st = [''table_name'' \<mapsto> Str ''%s_version'',
                ''transaction_column_name'' \<mapsto> Str ''transaction_id'',
                ''end_transaction_column_name'' \<mapsto> Str ''end_transaction_id'',
                ''operation_type_column_name'' \<mapsto> Str ''operation_type'',
                ''strategy'' \<mapsto> st,
                ''exclude'' \<mapsto> Seq [ECol 2]]"

definition table_only :: "pyval \<Rightarrow> unit table_builder" where
  "table_only st =
     \<lparr>manager = \<lparr>manager_option = (\<lambda>m n. Inl TypeError), options = defaults st,
                  is_excluded_column = (\<lambda>m a. Inr False)\<rparr>,
      parent_table = 0, model = None\<rparr>"

definition no_plugins :: "unit runtime" where
  "no_plugins = \<lparr>str_mod = (\<lambda>t n. format_s t n False), inspect_columns = (\<lambda>m. Inr []),
     after_build_version_table_columns = (\<lambda>b cs h. Inr (cs, h))\<rparr>"

text \<open>
  A table whose column \<open>transaction_id\<close> is declared non-null and is not a primary key.
\<close>

definition txn_state :: state where
  "txn_state = \<lparr>cols = [\<lparr>name = ''transaction_id'', key = ''transaction_id'',
                          type = OtherType ''Integer'', primary_key = False, nullable = False,
                          autoincrement = Auto, unique = None, index = None, onupdate = None\<rparr>],
                 tabs = [\<lparr>tbl_name = ''article'', tbl_c = [0], tbl_metadata = 0\<rparr>],
                 tables = [(0, ''article'') \<mapsto> 0]\<rparr>"

text \<open>
  A builder without a model whose manager has no default options; a builder with a model
  whose manager answers the model-scoped lookup of \<open>strategy\<close> and raises \<open>KeyError\<close>
  for every other name; and a table \<open>ledger\<close> that has a column \<open>end_transaction_id\<close>
  of its own.
\<close>

definition no_defaults :: "unit table_builder" where
  "no_defaults =
     \<lparr>manager = \<lparr>manager_option = (\<lambda>m n. Inl TypeError), options = Map.empty,
                  is_excluded_column = (\<lambda>m a. Inr False)\<rparr>,
      parent_table = 0, model = None\<rparr>"

definition strict_model :: "unit table_builder" where
  "strict_model =
     \<lparr>manager = \<lparr>manager_option =
                    (\<lambda>m n. if n = ''strategy'' then Inr (Str ''validity'') else Inl KeyError),
                  options = defaults (Str ''flat''),
                  is_excluded_column = (\<lambda>m a. Inr (a = 1))\<rparr>,
      parent_table = 0, model = Some ()\<rparr>"

definition ledger :: state where
  "ledger = \<lparr>cols = [mk_col ''id'' True, mk_col ''end_transaction_id'' False],
         tabs = [\<lparr>tbl_name = ''ledger'', tbl_c = [0, 1], tbl_metadata = 0\<rparr>],
         tables = [(0, ''ledger'') \<mapsto> 0]\<rparr>"

text \<open>
  The catalog after the version table of \<open>invoice\<close> was built: \<open>invoice_version\<close> is
  registered next to \<open>invoice\<close>.  A runtime whose plugin hook appends one new column
  \<open>extra\<close> to the list.
\<close>

definition versioned :: state where
  "versioned =
     \<lparr>cols = [mk_col ''id'' True, mk_col ''amount'' False, mk_col ''created_at'' False,
              mk_col ''id'' True, mk_col ''transaction_id'' True, mk_col ''operation_type'' False],
      tabs = [\<lparr>tbl_name = ''invoice'', tbl_c = [0, 1, 2], tbl_metadata = 0\<rparr>,
              \<lparr>tbl_name = ''invoice_version'', tbl_c = [3, 4, 5], tbl_metadata = 0\<rparr>],
      tables = [(0, ''invoice'') \<mapsto> 0, (0, ''invoice_version'') \<mapsto> 1]\<rparr>"

definition one_plugin :: "unit runtime" where
  "one_plugin =
     \<lparr>str_mod = (\<lambda>t n. format_s t n False), inspect_columns = (\<lambda>m. Inr []),
      after_build_version_table_columns =
        (\<lambda>b cs h. Inr (cs @ [length h], h @ [mk_col ''extra'' False]))\<rparr>"

text \<open>
  A builder without a model whose \<open>exclude\<close> option holds the name \<open>created_at\<close>; a
  builder with a model whose manager answers every model-scoped lookup and whose predicate
  excludes the column \<open>amount\<close>; and a runtime whose mapper lists the columns \<open>id\<close> and
  \<open>amount\<close> under the keys \<open>ident\<close> and \<open>total\<close>.
\<close>

definition by_name :: "unit table_builder" where
  "by_name =
     \<lparr>manager = \<lparr>manager_option = (\<lambda>m n. Inl TypeError),
                  options = (defaults (Str ''flat''))(''exclude'' \<mapsto> Seq [EStr ''created_at'']),
                  is_excluded_column = (\<lambda>m a. Inr False)\<rparr>,
      parent_table = 0, model = None\<rparr>"

definition with_model :: "unit table_builder" where
  "with_model =
     \<lparr>manager = \<lparr>manager_option =
                    (\<lambda>m n. case defaults (Str ''validity'') n of
                               None \<Rightarrow> Inl KeyError | Some v \<Rightarrow> Inr v),
                  options = Map.empty,
                  is_excluded_column = (\<lambda>m a. Inr (a = 1))\<rparr>,
      parent_table = 0, model = Some ()\<rparr>"

definition mapped_runtime :: "unit runtime" where
  "mapped_runtime =
     \<lparr>str_mod = (\<lambda>t n. format_s t n False),
      inspect_columns = (\<lambda>m. Inr [(''ident'', 0), (''total'', 1)]),
      after_build_version_table_columns = (\<lambda>b cs h. Inr (cs, h))\<rparr>"

section \<open>Properties\<close>

subsection \<open>Auxiliary lemmas\<close>

lemma find_key_last:
  "cols s = h @ [v] \<Longrightarrow>
   find_key column (length h) items s = s\<lparr>cols := h @ [v\<lparr>key := mapped_key column items (key v)\<rparr>]\<rparr>"
proof (induction items arbitrary: s v)
  case Nil
  then show ?case by simp
next
  case (Cons kv items)
  obtain k w where kv: "kv = (k, w)" by (cases kv)
  show ?case
  proof (cases "w = column")
    case True
    have "cols (setattr (length h) (\<lambda>c. c\<lparr>key := k\<rparr>) s) = h @ [v\<lparr>key := k\<rparr>]"
      using Cons.prems by (simp add: setattr_def)
    from Cons.IH [OF this] show ?thesis
      using True kv Cons.prems by (simp add: setattr_def)
  next
    case False
    with Cons.IH [OF Cons.prems] kv show ?thesis by simp
  qed
qed

lemma reflect_column_Inr:
  assumes "reflect_column rt self column s = Inr (cc, s')"
  shows "\<exists>tn items. option self ''transaction_column_name'' = Inr tn \<and>
           (case model self of None \<Rightarrow> items = [] | Some m \<Rightarrow> inspect_columns rt m = Inr items) \<and>
           cc = length (cols s) \<and>
           s' = s\<lparr>cols := cols s @
                  [reflected_value tn (mapped_key column items (key (cols s ! column))) (cols s ! column)]\<rparr>"
proof -
  obtain tn where tn: "option self ''transaction_column_name'' = Inr tn"
    using assms by (cases "option self ''transaction_column_name''")
      (simp_all add: reflect_column_def column_copy_def Let_def)
  let ?c = "cols s ! column"
  let ?v = "reflected_value tn (key ?c) ?c"
  define s6 where "s6 = s\<lparr>cols := cols s @ [?v]\<rparr>"
  have step: "reflect_column rt self column s =
      (case model self of None \<Rightarrow> Inr (length (cols s), s6)
       | Some m \<Rightarrow> (case inspect_columns rt m of Inl e \<Rightarrow> Inl e
                    | Inr items \<Rightarrow> Inr (length (cols s), find_key column (length (cols s)) items s6)))"
    unfolding s6_def
    by (cases "cols s ! column"; cases "autoincrement ?c")
       (simp_all add: reflect_column_def column_copy_def Let_def setattr_def tn reflected_value_def
          split: option.splits sum.splits)
  have s6c: "cols s6 = cols s @ [?v]" by (simp add: s6_def)
  show ?thesis
  proof (cases "model self")
    case None
    with assms step have "cc = length (cols s)" "s' = s6" by simp_all
    then show ?thesis using tn None by (auto simp: s6_def intro!: exI [of _ "[]"])
  next
    case (Some m)
    with assms step obtain items where it: "inspect_columns rt m = Inr items"
      by (cases "inspect_columns rt m") simp_all
    from assms step Some it have r: "cc = length (cols s)"
      "s' = find_key column (length (cols s)) items s6"
      by auto
    have "s' = s\<lparr>cols := cols s @ [?v\<lparr>key := mapped_key column items (key ?v)\<rparr>]\<rparr>"
      using find_key_last [OF s6c, of column items] r by (simp add: s6_def)
    moreover have "?v\<lparr>key := mapped_key column items (key ?v)\<rparr> =
        reflected_value tn (mapped_key column items (key ?c)) ?c"
      by (simp add: reflected_value_def)
    ultimately show ?thesis using tn it r Some by auto
  qed
qed

lemma reflect_column_closed:
  assumes "reflect_column rt self column s = Inr (cc, s')"
    and "option self ''transaction_column_name'' = Inr tn"
  shows "cc = length (cols s) \<and> s' = s\<lparr>cols := cols s @ [reflected rt self tn s column]\<rparr>"
proof -
  from reflect_column_Inr [OF assms(1)] obtain tn' items where
    h: "option self ''transaction_column_name'' = Inr tn'"
       "(case model self of None \<Rightarrow> items = [] | Some m \<Rightarrow> inspect_columns rt m = Inr items)"
       "cc = length (cols s)"
       "s' = s\<lparr>cols := cols s @
              [reflected_value tn' (mapped_key column items (key (cols s ! column))) (cols s ! column)]\<rparr>"
    by blast
  from h(1) assms(2) have "tn' = tn" by simp
  moreover from h(2) have "items = mapper_items rt self"
    by (simp add: mapper_items_def split: option.splits)
  ultimately show ?thesis using h(3,4) by (simp add: reflected_def)
qed

lemma parent_columns_from_Inr:
  "parent_columns_from self xs = map Inr ys \<Longrightarrow>
   ys = [a \<leftarrow> xs. skipped self a = Inr False] \<and> (\<forall>a \<in> set xs. \<exists>b. skipped self a = Inr b)"
proof (induction xs arbitrary: ys)
  case Nil
  then show ?case by simp
next
  case (Cons x xs)
  show ?case
  proof (cases "skipped self x")
    case (Inl e)
    with Cons.prems show ?thesis by (cases ys) auto
  next
    case (Inr b)
    show ?thesis
    proof (cases b)
      case True
      with Inr Cons.prems have "parent_columns_from self xs = map Inr ys" by simp
      from Cons.IH [OF this] Inr True show ?thesis by auto
    next
      case False
      with Inr Cons.prems obtain ys' where ys: "ys = x # ys'"
        and r: "parent_columns_from self xs = map Inr ys'"
        by (cases ys) auto
      from Cons.IH [OF r] Inr False ys show ?thesis by auto
    qed
  qed
qed

lemma reflected_frame:
  "a < length (cols s) \<Longrightarrow> reflected rt self tn (s\<lparr>cols := cols s @ ext\<rparr>) a = reflected rt self tn s a"
  by (simp add: reflected_def nth_append)

lemma reflect_all_Inr:
  assumes "reflect_all rt self gen acc s = Inr (rs, s')"
    and "option self ''transaction_column_name'' = Inr tn"
  shows "\<exists>ys ext. gen = map Inr ys \<and> length ext = length ys \<and>
           rs = acc @ [length (cols s)..<length (cols s) + length ys] \<and>
           s' = s\<lparr>cols := cols s @ ext\<rparr> \<and>
           (list_all (\<lambda>a. a < length (cols s)) ys \<longrightarrow> ext = map (reflected rt self tn s) ys)"
  using assms
proof (induction rt self gen acc s rule: reflect_all.induct)
  case (1 rt self columns s)
  then show ?case by simp
next
  case (2 rt self e rest columns s)
  then show ?case by simp
next
  case (3 rt self column rest columns s)
  note tn = "3.prems"(2)
  from "3.prems"(1) obtain cc s1 where rc: "reflect_column rt self column s = Inr (cc, s1)"
    by (cases "reflect_column rt self column s") auto
  with "3.prems"(1) have ra: "reflect_all rt self rest (columns @ [cc]) s1 = Inr (rs, s')" by simp
  from reflect_column_closed [OF rc tn]
  have cc: "cc = length (cols s)" and s1: "s1 = s\<lparr>cols := cols s @ [reflected rt self tn s column]\<rparr>"
    by simp_all
  from "3.IH" [OF rc refl ra tn] obtain ys ext where
    h: "rest = map Inr ys" "length ext = length ys"
       "rs = (columns @ [cc]) @ [length (cols s1)..<length (cols s1) + length ys]"
       "s' = s1\<lparr>cols := cols s1 @ ext\<rparr>"
       "list_all (\<lambda>a. a < length (cols s1)) ys \<longrightarrow> ext = map (reflected rt self tn s1) ys"
    by blast
  let ?v = "reflected rt self tn s column"
  have l1: "length (cols s1) = Suc (length (cols s))" by (simp add: s1)
  have "Inr column # rest = map Inr (column # ys)" using h(1) by simp
  moreover have "length (?v # ext) = length (column # ys)" using h(2) by simp
  moreover have "rs = columns @ [length (cols s)..<length (cols s) + length (column # ys)]"
  proof -
    have "[length (cols s)..<length (cols s) + length (column # ys)] =
        length (cols s) # [length (cols s1)..<length (cols s1) + length ys]"
      by (simp add: l1 upt_conv_Cons del: upt_Suc)
    then show ?thesis
      by (simp only: h(3) cc append_assoc append_Cons append_Nil)
  qed
  moreover have "s' = s\<lparr>cols := cols s @ (?v # ext)\<rparr>"
    using h(4) s1 by simp
  moreover have "list_all (\<lambda>a. a < length (cols s)) (column # ys) \<longrightarrow>
      ?v # ext = map (reflected rt self tn s) (column # ys)"
  proof
    assume a: "list_all (\<lambda>a. a < length (cols s)) (column # ys)"
    then have "list_all (\<lambda>a. a < length (cols s1)) ys" by (auto simp: l1 list_all_iff)
    with h(5) have "ext = map (reflected rt self tn s1) ys" by simp
    also have "\<dots> = map (reflected rt self tn s) ys"
      using a by (auto simp: s1 list_all_iff reflected_frame)
    finally show "?v # ext = map (reflected rt self tn s) (column # ys)" by simp
  qed
  ultimately have "Inr column # rest = map Inr (column # ys) \<and>
      length (?v # ext) = length (column # ys) \<and>
      rs = columns @ [length (cols s)..<length (cols s) + length (column # ys)] \<and>
      s' = s\<lparr>cols := cols s @ (?v # ext)\<rparr> \<and>
      (list_all (\<lambda>a. a < length (cols s)) (column # ys) \<longrightarrow>
        ?v # ext = map (reflected rt self tn s) (column # ys))"
    by (intro conjI)
  then show ?case
    by - (rule exI [where x = "column # ys"], rule exI [where x = "?v # ext"], assumption)
qed

lemma sa_Column_Inr:
  "sa_Column nm ty pk nl ix ai s = Inr (a, s') \<Longrightarrow>
   \<exists>n. nm = Str n \<and> a = length (cols s) \<and> length (cols s') = Suc (length (cols s)) \<and>
       s' = s\<lparr>cols := cols s @ [cols s' ! a]\<rparr>"
  by (cases nm) (auto simp: sa_Column_def Let_def)

lemma transaction_column_Inr:
  "transaction_column self s = Inr (a, s') \<Longrightarrow>
   \<exists>t. option self ''transaction_column_name'' = Inr (Str t) \<and> a = length (cols s) \<and>
       s' = s\<lparr>cols := cols s @ [transaction_value t]\<rparr>"
  by (cases "option self ''transaction_column_name''"; cases "projr (option self ''transaction_column_name'')")
     (auto simp: transaction_column_def sa_Column_def transaction_value_def)

lemma end_transaction_column_Inr:
  "end_transaction_column self s = Inr (a, s') \<Longrightarrow>
   \<exists>t. option self ''end_transaction_column_name'' = Inr (Str t) \<and> a = length (cols s) \<and>
       s' = s\<lparr>cols := cols s @ [end_transaction_value t]\<rparr>"
  by (cases "option self ''end_transaction_column_name''";
      cases "projr (option self ''end_transaction_column_name'')")
     (auto simp: end_transaction_column_def sa_Column_def end_transaction_value_def)

lemma operation_type_column_Inr:
  "operation_type_column self s = Inr (a, s') \<Longrightarrow>
   \<exists>t. option self ''operation_type_column_name'' = Inr (Str t) \<and> a = length (cols s) \<and>
       s' = s\<lparr>cols := cols s @ [operation_type_value t]\<rparr>"
  by (cases "option self ''operation_type_column_name''";
      cases "projr (option self ''operation_type_column_name'')")
     (auto simp: operation_type_column_def sa_Column_def operation_type_value_def)

lemma reflected_columns_Inr:
  assumes "reflected_columns rt self s = Inr (rs, s1)"
  shows "\<exists>t rv ext. option self ''transaction_column_name'' = Inr (Str t) \<and>
           parent_columns self s = map Inr (kept self s) \<and>
           length rv = length (kept self s) \<and>
           (allocated self s \<longrightarrow> rv = map (reflected rt self (Str t) s) (kept self s)) \<and>
           ext = (if t \<in> set (map key rv) then rv else rv @ [plain_value t]) \<and>
           rs = [length (cols s)..<length (cols s) + length ext] \<and>
           s1 = s\<lparr>cols := cols s @ ext\<rparr>"
proof -
  obtain tn where tn: "option self ''transaction_column_name'' = Inr tn"
    using assms by (cases "option self ''transaction_column_name''")
      (simp_all add: reflected_columns_def)
  obtain columns s0 where ra: "reflect_all rt self (parent_columns self s) [] s = Inr (columns, s0)"
    using assms tn by (cases "reflect_all rt self (parent_columns self s) [] s")
      (auto simp: reflected_columns_def)
  from reflect_all_Inr [OF ra tn] obtain ys rv where
    h: "parent_columns self s = map Inr ys" "length rv = length ys"
       "columns = [length (cols s)..<length (cols s) + length ys]"
       "s0 = s\<lparr>cols := cols s @ rv\<rparr>"
       "list_all (\<lambda>a. a < length (cols s)) ys \<longrightarrow> rv = map (reflected rt self tn s) ys"
    by auto
  from h(1) have ys: "ys = kept self s"
    using parent_columns_from_Inr [of self _ ys] by (simp add: parent_columns_def kept_def)
  have al: "allocated self s \<Longrightarrow> list_all (\<lambda>a. a < length (cols s)) ys"
    by (auto simp: allocated_def ys kept_def list_all_iff)
  have keys: "map (\<lambda>c. Str (key (cols s0 ! c))) columns = map (\<lambda>c. Str (key c)) rv"
    using h(2) by (auto simp: h(3,4) nth_append intro!: nth_equalityI)
  have rest: "(if tn \<notin> set (map (\<lambda>c. Str (key c)) rv)
               then (case sa_Column tn BigInteger None None None None s0 of
                       Inl e \<Rightarrow> Inl e
                     | Inr (a, s2) \<Rightarrow> Inr (columns @ [a], s2))
               else Inr (columns, s0)) = Inr (rs, s1)"
  proof -
    have "(\<lambda>c. Str (key (cols s0 ! c))) ` set columns = (\<lambda>c. Str (key c)) ` set rv"
      using arg_cong [OF keys, of set] by simp
    then show ?thesis
      using assms tn ra by (simp add: reflected_columns_def)
  qed
  obtain t where t: "tn = Str t"
  proof (cases tn)
    case (Str t)
    then show ?thesis using that by simp
  next
    case (Seq xs)
    then have "tn \<notin> set (map (\<lambda>c. Str (key c)) rv)" by auto
    with rest Seq show ?thesis by (simp add: sa_Column_def)
  qed
  have mem: "tn \<in> set (map (\<lambda>c. Str (key c)) rv) \<longleftrightarrow> t \<in> set (map key rv)"
    by (auto simp: t)
  let ?ext = "if t \<in> set (map key rv) then rv else rv @ [plain_value t]"
  have "rs = [length (cols s)..<length (cols s) + length ?ext] \<and> s1 = s\<lparr>cols := cols s @ ?ext\<rparr>"
  proof (cases "t \<in> set (map key rv)")
    case True
    with rest mem show ?thesis by (simp add: h(2,3,4))
  next
    case False
    with rest mem show ?thesis
      by (auto simp: h(2,3,4) t sa_Column_def plain_value_def)
  qed
  note c5 = this
  have c1: "option self ''transaction_column_name'' = Inr (Str t)" using tn t by simp
  have c2: "parent_columns self s = map Inr (kept self s)" using h(1) ys by simp
  have c3: "length rv = length (kept self s)" using h(2) ys by simp
  have c4: "allocated self s \<longrightarrow> rv = map (reflected rt self (Str t) s) (kept self s)"
    using h(5) al ys t by blast
  from c1 c2 c3 c4 c5 have "option self ''transaction_column_name'' = Inr (Str t) \<and>
           parent_columns self s = map Inr (kept self s) \<and>
           length rv = length (kept self s) \<and>
           (allocated self s \<longrightarrow> rv = map (reflected rt self (Str t) s) (kept self s)) \<and>
           ?ext = (if t \<in> set (map key rv) then rv else rv @ [plain_value t]) \<and>
           rs = [length (cols s)..<length (cols s) + length ?ext] \<and>
           s1 = s\<lparr>cols := cols s @ ?ext\<rparr>"
    by (intro conjI refl) blast+
  then show ?thesis
    by - (rule exI [where x = t], rule exI [where x = rv], rule exI [where x = "?ext"], assumption)
qed

lemma map_nth_fresh:
  "map (\<lambda>a. (h @ news) ! a) [length h..<length h + length news] = news"
  by (auto intro!: nth_equalityI simp: nth_append)

lemma columns_Inr:
  assumes "columns rt self s = Inr (data, s')"
  shows "\<exists>rs s1 t st ot endp.
           reflected_columns rt self s = Inr (rs, s1) \<and>
           option self ''transaction_column_name'' = Inr (Str t) \<and>
           option self ''strategy'' = Inr st \<and>
           option self ''operation_type_column_name'' = Inr (Str ot) \<and>
           (if st = Str ''validity''
            then \<exists>en. option self ''end_transaction_column_name'' = Inr (Str en) \<and>
                   endp = [end_transaction_value en]
            else endp = []) \<and>
           data = rs @ [length (cols s1)..<length (cols s1) + length endp + 2] \<and>
           s' = s1\<lparr>cols := cols s1 @ [transaction_value t] @ endp @ [operation_type_value ot]\<rparr>"
proof -
  obtain rs s1 where r: "reflected_columns rt self s = Inr (rs, s1)"
    using assms by (cases "reflected_columns rt self s") (auto simp: columns_def)
  obtain a s2 where tc: "transaction_column self s1 = Inr (a, s2)"
    using assms r by (cases "transaction_column self s1") (auto simp: columns_def)
  obtain st where st: "option self ''strategy'' = Inr st"
    using assms r tc by (cases "option self ''strategy''") (auto simp: columns_def)
  from transaction_column_Inr [OF tc] obtain t where
    t: "option self ''transaction_column_name'' = Inr (Str t)" "a = length (cols s1)"
       "s2 = s1\<lparr>cols := cols s1 @ [transaction_value t]\<rparr>"
    by blast
  show ?thesis
  proof (cases "st = Str ''validity''")
    case True
    obtain b s3 where ec: "end_transaction_column self s2 = Inr (b, s3)"
      using assms r tc st True by (cases "end_transaction_column self s2") (auto simp: columns_def)
    obtain c s4 where oc: "operation_type_column self s3 = Inr (c, s4)"
      using assms r tc st True ec by (cases "operation_type_column self s3") (auto simp: columns_def)
    from assms r tc st True ec oc have res: "data = rs @ [a, b, c]" "s' = s4"
      by (auto simp: columns_def)
    from end_transaction_column_Inr [OF ec] obtain en where
      en: "option self ''end_transaction_column_name'' = Inr (Str en)" "b = length (cols s2)"
          "s3 = s2\<lparr>cols := cols s2 @ [end_transaction_value en]\<rparr>"
      by blast
    from operation_type_column_Inr [OF oc] obtain ot where
      ot: "option self ''operation_type_column_name'' = Inr (Str ot)" "c = length (cols s3)"
          "s4 = s3\<lparr>cols := cols s3 @ [operation_type_value ot]\<rparr>"
      by blast
    let ?endp = "[end_transaction_value en]"
    have d: "data = rs @ [length (cols s1)..<length (cols s1) + length ?endp + 2]"
      using res(1) t(2,3) en(2,3) ot(2) by (simp add: upt_rec)
    have e: "s' = s1\<lparr>cols := cols s1 @ [transaction_value t] @ ?endp @ [operation_type_value ot]\<rparr>"
      using res(2) t(3) en(3) ot(3) by simp
    have "reflected_columns rt self s = Inr (rs, s1) \<and>
           option self ''transaction_column_name'' = Inr (Str t) \<and>
           option self ''strategy'' = Inr st \<and>
           option self ''operation_type_column_name'' = Inr (Str ot) \<and>
           (if st = Str ''validity''
            then \<exists>en. option self ''end_transaction_column_name'' = Inr (Str en) \<and>
                   ?endp = [end_transaction_value en]
            else ?endp = []) \<and>
           data = rs @ [length (cols s1)..<length (cols s1) + length ?endp + 2] \<and>
           s' = s1\<lparr>cols := cols s1 @ [transaction_value t] @ ?endp @ [operation_type_value ot]\<rparr>"
      using r t(1) st ot(1) True en(1) d e by (intro conjI) simp_all
    then show ?thesis
      by - (rule exI [where x = rs], rule exI [where x = s1], rule exI [where x = t],
            rule exI [where x = st], rule exI [where x = ot], rule exI [where x = "?endp"],
            assumption)
  next
    case False
    obtain c s4 where oc: "operation_type_column self s2 = Inr (c, s4)"
      using assms r tc st False by (cases "operation_type_column self s2") (auto simp: columns_def)
    from assms r tc st False oc have res: "data = rs @ [a, c]" "s' = s4"
      by (auto simp: columns_def)
    from operation_type_column_Inr [OF oc] obtain ot where
      ot: "option self ''operation_type_column_name'' = Inr (Str ot)" "c = length (cols s2)"
          "s4 = s2\<lparr>cols := cols s2 @ [operation_type_value ot]\<rparr>"
      by blast
    have d: "data = rs @ [length (cols s1)..<length (cols s1) + length ([] :: column list) + 2]"
      using res(1) t(2,3) ot(2) by (simp add: upt_rec)
    have e: "s' = s1\<lparr>cols := cols s1 @ [transaction_value t] @ [] @ [operation_type_value ot]\<rparr>"
      using res(2) t(3) ot(3) by simp
    have "reflected_columns rt self s = Inr (rs, s1) \<and>
           option self ''transaction_column_name'' = Inr (Str t) \<and>
           option self ''strategy'' = Inr st \<and>
           option self ''operation_type_column_name'' = Inr (Str ot) \<and>
           (if st = Str ''validity''
            then \<exists>en. option self ''end_transaction_column_name'' = Inr (Str en) \<and>
                   ([] :: column list) = [end_transaction_value en]
            else ([] :: column list) = []) \<and>
           data = rs @ [length (cols s1)..<length (cols s1) + length ([] :: column list) + 2] \<and>
           s' = s1\<lparr>cols := cols s1 @ [transaction_value t] @ [] @ [operation_type_value ot]\<rparr>"
      using r t(1) st ot(1) False d e by (intro conjI) simp_all
    then show ?thesis
      by - (rule exI [where x = rs], rule exI [where x = s1], rule exI [where x = t],
            rule exI [where x = st], rule exI [where x = ot],
            rule exI [where x = "[] :: column list"], assumption)
  qed
qed

lemma columns_view:
  assumes "columns rt self s = Inr (data, s')"
  shows "\<exists>t st ot rv endp.
           option self ''transaction_column_name'' = Inr (Str t) \<and>
           option self ''strategy'' = Inr st \<and>
           option self ''operation_type_column_name'' = Inr (Str ot) \<and>
           parent_columns self s = map Inr (kept self s) \<and>
           length rv = length (kept self s) \<and>
           (allocated self s \<longrightarrow> rv = map (reflected rt self (Str t) s) (kept self s)) \<and>
           (if st = Str ''validity''
            then \<exists>en. option self ''end_transaction_column_name'' = Inr (Str en) \<and>
                   endp = [end_transaction_value en]
            else endp = []) \<and>
           map (\<lambda>a. cols s' ! a) data =
             rv @ (if t \<in> set (map key rv) then [] else [plain_value t]) @
             [transaction_value t] @ endp @ [operation_type_value ot] \<and>
           data = [length (cols s)..<length (cols s) + length data] \<and>
           cols s' = cols s @ map (\<lambda>a. cols s' ! a) data \<and>
           tabs s' = tabs s \<and> tables s' = tables s"
proof -
  from columns_Inr [OF assms] obtain rs s1 t st ot endp where
    h: "reflected_columns rt self s = Inr (rs, s1)"
       "option self ''transaction_column_name'' = Inr (Str t)"
       "option self ''strategy'' = Inr st"
       "option self ''operation_type_column_name'' = Inr (Str ot)"
       "(if st = Str ''validity''
            then \<exists>en. option self ''end_transaction_column_name'' = Inr (Str en) \<and>
                   endp = [end_transaction_value en]
            else endp = [])"
       "data = rs @ [length (cols s1)..<length (cols s1) + length endp + 2]"
       "s' = s1\<lparr>cols := cols s1 @ [transaction_value t] @ endp @ [operation_type_value ot]\<rparr>"
    by blast
  from reflected_columns_Inr [OF h(1)] h(2) obtain rv ext where
    g: "parent_columns self s = map Inr (kept self s)"
       "length rv = length (kept self s)"
       "allocated self s \<longrightarrow> rv = map (reflected rt self (Str t) s) (kept self s)"
       "ext = (if t \<in> set (map key rv) then rv else rv @ [plain_value t])"
       "rs = [length (cols s)..<length (cols s) + length ext]"
       "s1 = s\<lparr>cols := cols s @ ext\<rparr>"
    by auto
  let ?news = "ext @ [transaction_value t] @ endp @ [operation_type_value ot]"
  have d: "data = [length (cols s)..<length (cols s) + length ?news]"
  proof -
    have "[length (cols s)..<length (cols s) + length ext + (length endp + 2)] =
        [length (cols s)..<length (cols s) + length ext] @
        [length (cols s) + length ext..<length (cols s) + length ext + (length endp + 2)]"
      by (rule upt_add_eq_append) simp
    then show ?thesis using h(6) g(5,6) by (simp add: add.assoc)
  qed
  have c: "cols s' = cols s @ ?news" using h(7) g(6) by simp
  have v: "map (\<lambda>a. cols s' ! a) data = ?news"
    unfolding d c by (rule map_nth_fresh)
  have v': "map (\<lambda>a. cols s' ! a) data =
             rv @ (if t \<in> set (map key rv) then [] else [plain_value t]) @
             [transaction_value t] @ endp @ [operation_type_value ot]"
    using v g(4) by simp
  have l: "length data = length ?news" using d by simp
  have d': "data = [length (cols s)..<length (cols s) + length data]"
    using d l by simp
  have c': "cols s' = cols s @ map (\<lambda>a. cols s' ! a) data" using c v by simp
  have f: "tabs s' = tabs s" "tables s' = tables s" using h(7) g(6) by simp_all
  from h(2,3,4) g(1,2,3) h(5) v' d' c' f
  have "option self ''transaction_column_name'' = Inr (Str t) \<and>
           option self ''strategy'' = Inr st \<and>
           option self ''operation_type_column_name'' = Inr (Str ot) \<and>
           parent_columns self s = map Inr (kept self s) \<and>
           length rv = length (kept self s) \<and>
           (allocated self s \<longrightarrow> rv = map (reflected rt self (Str t) s) (kept self s)) \<and>
           (if st = Str ''validity''
            then \<exists>en. option self ''end_transaction_column_name'' = Inr (Str en) \<and>
                   endp = [end_transaction_value en]
            else endp = []) \<and>
           map (\<lambda>a. cols s' ! a) data =
             rv @ (if t \<in> set (map key rv) then [] else [plain_value t]) @
             [transaction_value t] @ endp @ [operation_type_value ot] \<and>
           data = [length (cols s)..<length (cols s) + length data] \<and>
           cols s' = cols s @ map (\<lambda>a. cols s' ! a) data \<and>
           tabs s' = tabs s \<and> tables s' = tables s"
    by (intro conjI)
  then show ?thesis
    by - (rule exI [where x = t], rule exI [where x = st], rule exI [where x = ot],
          rule exI [where x = rv], rule exI [where x = endp], assumption)
qed

lemmas scenario_defs = invoice_def defaults_def table_only_def no_plugins_def mk_col_def

lemmas builder_defs = columns_def reflected_columns_def parent_columns_def skipped_def
  option_def reflect_column_def column_copy_def setattr_def sa_Column_def transaction_column_def
  end_transaction_column_def operation_type_column_def Let_def

subsection \<open>Column reflection\<close>

text \<open>
  The \<open>nullable\<close> flag of the copy: a column that is not a primary key becomes nullable
  whatever its name; a primary key becomes non-null when its name is the transaction column
  name and keeps its flag otherwise.
\<close>

lemma reflect_column_nullable:
  assumes "reflect_column rt self column s = Inr (cc, s')"
    and "option self ''transaction_column_name'' = Inr tn"
  shows "nullable (cols s' ! cc) =
           (if primary_key (cols s ! column)
            then (if Str (name (cols s ! column)) = tn then False else nullable (cols s ! column))
            else True)"
  using reflect_column_closed [OF assms] by (simp add: reflected_def reflected_value_def)

text \<open>
  C9.  When \<open>reflect_column\<close> returns for a column \<open>column\<close> of the store, the returned
  object is a new one: its address is the first free address, so it differs from
  \<open>column\<close> and from every object that existed before.  The store afterwards is the store
  before followed by that one object, so the source column keeps its attributes, and the
  tables and the catalogs are unchanged.  The new object is a copy of the source: it has
  the name, type, primary-key flag and index flag of the source; \<open>unique\<close> is \<open>False\<close>,
  \<open>onupdate\<close> is \<open>None\<close> and \<open>autoincrement\<close> is \<open>False\<close>; its key is the key of the
  source, or with a model the last key under which the mapper lists the source; and its
  \<open>nullable\<close> flag is the one of lemma \<open>reflect_column_nullable\<close>.  The last conjunct
  gives the whole record.
\<close>

theorem reflect_column_fresh_copy:
  assumes "reflect_column rt self column s = Inr (cc, s')"
    and "column < length (cols s)"
  shows "cc \<noteq> column \<and> cc = length (cols s) \<and>
         cols s' = cols s @ [cols s' ! cc] \<and>
         cols s' ! column = cols s ! column \<and>
         tabs s' = tabs s \<and> tables s' = tables s \<and>
         unique (cols s' ! cc) = Some False \<and>
         onupdate (cols s' ! cc) = None \<and>
         autoincrement (cols s' ! cc) = AutoFalse \<and>
         name (cols s' ! cc) = name (cols s ! column) \<and>
         type (cols s' ! cc) = type (cols s ! column) \<and>
         primary_key (cols s' ! cc) = primary_key (cols s ! column) \<and>
         index (cols s' ! cc) = index (cols s ! column) \<and>
         key (cols s' ! cc) =
           mapped_key column (mapper_items rt self) (key (cols s ! column)) \<and>
         (model self = None \<longrightarrow> key (cols s' ! cc) = key (cols s ! column)) \<and>
         (\<exists>tn. option self ''transaction_column_name'' = Inr tn \<and>
            cols s' ! cc =
              (cols s ! column)
                \<lparr>unique := Some False, onupdate := None, autoincrement := AutoFalse,
                 nullable :=
                   (if primary_key (cols s ! column)
                    then (if Str (name (cols s ! column)) = tn then False
                          else nullable (cols s ! column))
                    else True),
                 key := mapped_key column (mapper_items rt self) (key (cols s ! column))\<rparr>)"
proof -
  obtain tn where tn: "option self ''transaction_column_name'' = Inr tn"
    using assms(1) by (cases "option self ''transaction_column_name''")
      (simp_all add: reflect_column_def column_copy_def Let_def)
  from reflect_column_closed [OF assms(1) tn]
  have cc: "cc = length (cols s)"
    and s': "s' = s\<lparr>cols := cols s @ [reflected rt self tn s column]\<rparr>"
    by simp_all
  have v: "cols s' ! cc = reflected rt self tn s column" by (simp add: cc s')
  have m: "model self = None \<longrightarrow>
      mapped_key column (mapper_items rt self) (key (cols s ! column)) = key (cols s ! column)"
    by (simp add: mapper_items_def)
  have r: "cols s' ! cc =
              (cols s ! column)
                \<lparr>unique := Some False, onupdate := None, autoincrement := AutoFalse,
                 nullable :=
                   (if primary_key (cols s ! column)
                    then (if Str (name (cols s ! column)) = tn then False
                          else nullable (cols s ! column))
                    else True),
                 key := mapped_key column (mapper_items rt self) (key (cols s ! column))\<rparr>"
    by (simp add: v reflected_def reflected_value_def)
  have ex: "\<exists>tn. option self ''transaction_column_name'' = Inr tn \<and>
            cols s' ! cc =
              (cols s ! column)
                \<lparr>unique := Some False, onupdate := None, autoincrement := AutoFalse,
                 nullable :=
                   (if primary_key (cols s ! column)
                    then (if Str (name (cols s ! column)) = tn then False
                          else nullable (cols s ! column))
                    else True),
                 key := mapped_key column (mapper_items rt self) (key (cols s ! column))\<rparr>"
    using tn r by - (rule exI [where x = tn], rule conjI)
  have a: "cc \<noteq> column \<and> cc = length (cols s) \<and>
         cols s' = cols s @ [cols s' ! cc] \<and>
         cols s' ! column = cols s ! column \<and>
         tabs s' = tabs s \<and> tables s' = tables s"
    using assms(2) by (simp add: cc s' nth_append)
  have b: "unique (cols s' ! cc) = Some False \<and>
         onupdate (cols s' ! cc) = None \<and>
         autoincrement (cols s' ! cc) = AutoFalse \<and>
         name (cols s' ! cc) = name (cols s ! column) \<and>
         type (cols s' ! cc) = type (cols s ! column) \<and>
         primary_key (cols s' ! cc) = primary_key (cols s ! column) \<and>
         index (cols s' ! cc) = index (cols s ! column) \<and>
         key (cols s' ! cc) =
           mapped_key column (mapper_items rt self) (key (cols s ! column))"
    by (simp add: r)
  from b m have c: "model self = None \<longrightarrow> key (cols s' ! cc) = key (cols s ! column)"
    by simp
  from a b c ex show ?thesis by (elim conjE) (intro conjI)
qed

theorem reflect_column_fresh_copy_witness:
  "(\<exists>cc s'. reflect_column no_plugins (table_only (Str ''flat'')) 0 invoice = Inr (cc, s') \<and>
     0 < length (cols invoice) \<and>
     model (table_only (Str ''flat'')) = None \<and>
     cc \<noteq> 0 \<and> cc = length (cols invoice) \<and>
     cols s' = cols invoice @ [cols s' ! cc] \<and>
     cols s' ! 0 = cols invoice ! 0 \<and>
     tabs s' = tabs invoice \<and> tables s' = tables invoice \<and>
     cols s' ! cc =
       \<lparr>name = ''id'', key = ''id'', type = OtherType ''Integer'', primary_key = True,
        nullable = False, autoincrement = AutoFalse, unique = Some False, index = None,
        onupdate = None\<rparr>) \<and>
   (\<exists>cc s'. reflect_column mapped_runtime with_model 0 invoice = Inr (cc, s') \<and>
     name (cols s' ! cc) = ''id'' \<and> key (cols s' ! cc) = ''ident'')"
proof -
  have A: "\<exists>cc s'. reflect_column no_plugins (table_only (Str ''flat'')) 0 invoice = Inr (cc, s') \<and>
     0 < length (cols invoice) \<and>
     model (table_only (Str ''flat'')) = None \<and>
     cc \<noteq> 0 \<and> cc = length (cols invoice) \<and>
     cols s' = cols invoice @ [cols s' ! cc] \<and>
     cols s' ! 0 = cols invoice ! 0 \<and>
     tabs s' = tabs invoice \<and> tables s' = tables invoice \<and>
     cols s' ! cc =
       \<lparr>name = ''id'', key = ''id'', type = OtherType ''Integer'', primary_key = True,
        nullable = False, autoincrement = AutoFalse, unique = Some False, index = None,
        onupdate = None\<rparr>"
  proof -
    let ?self = "table_only (Str ''flat'')"
    obtain cc s' where r: "reflect_column no_plugins ?self 0 invoice = Inr (cc, s')"
      by (simp add: scenario_defs builder_defs)
    have a: "0 < length (cols invoice)" by (simp add: invoice_def)
    have m: "model ?self = None" by (simp add: table_only_def)
    have src: "cols invoice ! 0 =
        \<lparr>name = ''id'', key = ''id'', type = OtherType ''Integer'', primary_key = True,
          nullable = False, autoincrement = Auto, unique = None, index = None, onupdate = None\<rparr>"
      by (simp add: invoice_def mk_col_def)
    note f = reflect_column_fresh_copy [OF r a]
    from f have 1: "cc \<noteq> 0 \<and> cc = length (cols invoice) \<and>
      cols s' = cols invoice @ [cols s' ! cc] \<and> cols s' ! 0 = cols invoice ! 0 \<and>
      tabs s' = tabs invoice \<and> tables s' = tables invoice"
      by (elim conjE) (intro conjI)
    from f have 2: "unique (cols s' ! cc) = Some False \<and> onupdate (cols s' ! cc) = None \<and>
      autoincrement (cols s' ! cc) = AutoFalse \<and> name (cols s' ! cc) = name (cols invoice ! 0) \<and>
      type (cols s' ! cc) = type (cols invoice ! 0) \<and>
      primary_key (cols s' ! cc) = primary_key (cols invoice ! 0) \<and>
      index (cols s' ! cc) = index (cols invoice ! 0)"
      by (elim conjE) (intro conjI)
    from f m have 3: "key (cols s' ! cc) = key (cols invoice ! 0)"
      by (elim conjE) simp
    from f obtain tn where 4: "option ?self ''transaction_column_name'' = Inr tn"
      "cols s' ! cc =
                (cols invoice ! 0)
                  \<lparr>unique := Some False, onupdate := None, autoincrement := AutoFalse,
                   nullable :=
                     (if primary_key (cols invoice ! 0)
                      then (if Str (name (cols invoice ! 0)) = tn then False
                            else nullable (cols invoice ! 0))
                      else True),
                   key := mapped_key 0 (mapper_items no_plugins ?self) (key (cols invoice ! 0))\<rparr>"
      by (elim conjE exE)
    have "option ?self ''transaction_column_name'' = Inr (Str ''transaction_id'')"
      by (simp add: option_def table_only_def defaults_def)
    with 4(1) have tn: "tn = Str ''transaction_id''" by simp
    have "nullable (cols s' ! cc) = False"
      by (subst 4(2)) (simp add: src tn)
    with 2 3 have "cols s' ! cc =
         \<lparr>name = ''id'', key = ''id'', type = OtherType ''Integer'', primary_key = True,
          nullable = False, autoincrement = AutoFalse, unique = Some False, index = None,
          onupdate = None\<rparr>"
      by (cases "cols s' ! cc") (simp add: src)
    with r a m 1 show ?thesis
      by - (rule exI [where x = cc], rule exI [where x = s'], elim conjE, intro conjI)
  qed
  have B: "\<exists>cc s'. reflect_column mapped_runtime with_model 0 invoice = Inr (cc, s') \<and>
     name (cols s' ! cc) = ''id'' \<and> key (cols s' ! cc) = ''ident''"
  proof -
    obtain cc s' where r: "reflect_column mapped_runtime with_model 0 invoice = Inr (cc, s')"
      by (simp add: with_model_def mapped_runtime_def defaults_def invoice_def mk_col_def
            builder_defs)
    have a: "0 < length (cols invoice)" by (simp add: invoice_def)
    note f = reflect_column_fresh_copy [OF r a]
    from f have "name (cols s' ! cc) = name (cols invoice ! 0) \<and>
        key (cols s' ! cc) =
          mapped_key 0 (mapper_items mapped_runtime with_model) (key (cols invoice ! 0))"
      by (elim conjE) (intro conjI)
    then have "name (cols s' ! cc) = ''id'' \<and> key (cols s' ! cc) = ''ident''"
      by (simp add: mapper_items_def with_model_def mapped_runtime_def invoice_def mk_col_def)
    with r show ?thesis
      by - (rule exI [where x = cc], rule exI [where x = s'], elim conjE, intro conjI)
  qed
  from A B show ?thesis by (rule conjI)
qed

text \<open>
  C2.  The claim asks for \<open>nullable = False\<close> on the copy of every column named like the
  transaction column.  The source assigns \<open>nullable = False\<close> under that test and then, in
  the next statement, \<open>nullable = True\<close> whenever the column is not a primary key.  For the
  column \<open>transaction_id\<close> of \<open>txn_state\<close>, which is not a primary key and is declared
  non-null, with \<open>transaction_column_name = 'transaction_id'\<close>, the copy is nullable.
\<close>

theorem reflect_column_transaction_name_nullable:
  "option (table_only (Str ''flat'')) ''transaction_column_name'' = Inr (Str ''transaction_id'') \<and>
   name (cols txn_state ! 0) = ''transaction_id'' \<and>
   \<not> primary_key (cols txn_state ! 0) \<and>
   \<not> nullable (cols txn_state ! 0) \<and>
   returned nullable (reflect_column no_plugins (table_only (Str ''flat'')) 0 txn_state) = Inr True"
  by (simp add: returned_def txn_state_def scenario_defs builder_defs)

subsection \<open>More auxiliary lemmas\<close>

lemma reflected_name [simp]:
  "name (reflected rt self tn s a) = name (cols s ! a)"
  "type (reflected rt self tn s a) = type (cols s ! a)"
  "primary_key (reflected rt self tn s a) = primary_key (cols s ! a)"
  by (simp_all add: reflected_def reflected_value_def)

lemma fresh_addresses:
  "data = [n..<n + length data] \<Longrightarrow> a \<in> set data \<Longrightarrow> n \<le> a"
proof -
  assume d: "data = [n..<n + length data]" and "a \<in> set data"
  then have "a \<in> set [n..<n + length data]" by simp
  then show "n \<le> a" by simp
qed

lemma columns_tail:
  assumes "columns rt self s = Inr (data, s')"
  shows "\<exists>rs s1 t st ot endp.
           reflected_columns rt self s = Inr (rs, s1) \<and>
           option self ''transaction_column_name'' = Inr (Str t) \<and>
           option self ''strategy'' = Inr st \<and>
           option self ''operation_type_column_name'' = Inr (Str ot) \<and>
           (if st = Str ''validity''
            then \<exists>en. option self ''end_transaction_column_name'' = Inr (Str en) \<and>
                   endp = [end_transaction_value en]
            else endp = []) \<and>
           length data = length rs + length endp + 2 \<and>
           set rs \<subseteq> set data \<and>
           map (\<lambda>a. cols s' ! a) data =
             map (\<lambda>a. cols s1 ! a) rs @ [transaction_value t] @ endp @ [operation_type_value ot]"
proof -
  from columns_Inr [OF assms] obtain rs s1 t st ot endp where
    h: "reflected_columns rt self s = Inr (rs, s1)"
       "option self ''transaction_column_name'' = Inr (Str t)"
       "option self ''strategy'' = Inr st"
       "option self ''operation_type_column_name'' = Inr (Str ot)"
       "(if st = Str ''validity''
            then \<exists>en. option self ''end_transaction_column_name'' = Inr (Str en) \<and>
                   endp = [end_transaction_value en]
            else endp = [])"
       "data = rs @ [length (cols s1)..<length (cols s1) + length endp + 2]"
       "s' = s1\<lparr>cols := cols s1 @ [transaction_value t] @ endp @ [operation_type_value ot]\<rparr>"
    by blast
  from reflected_columns_Inr [OF h(1)] obtain ext where
    g: "rs = [length (cols s)..<length (cols s) + length ext]"
       "s1 = s\<lparr>cols := cols s @ ext\<rparr>"
    by blast
  let ?tail = "[transaction_value t] @ endp @ [operation_type_value ot]"
  have old: "map (\<lambda>a. cols s' ! a) rs = map (\<lambda>a. cols s1 ! a) rs"
  proof (rule map_cong [OF refl])
    fix x assume "x \<in> set rs"
    then have "x < length (cols s1)" by (simp add: g)
    then show "cols s' ! x = cols s1 ! x" by (simp add: h(7) nth_append)
  qed
  have new: "map (\<lambda>a. cols s' ! a) [length (cols s1)..<length (cols s1) + length endp + 2] = ?tail"
    using map_nth_fresh [of "cols s1" ?tail] by (simp add: h(7) add.assoc)
  have v: "map (\<lambda>a. cols s' ! a) data = map (\<lambda>a. cols s1 ! a) rs @ ?tail"
    by (subst h(6)) (simp only: map_append old new)
  have l: "length data = length rs + length endp + 2" by (subst h(6)) simp
  have sub: "set rs \<subseteq> set data" by (subst h(6)) auto
  from h(1-5) l sub v
  have "reflected_columns rt self s = Inr (rs, s1) \<and>
           option self ''transaction_column_name'' = Inr (Str t) \<and>
           option self ''strategy'' = Inr st \<and>
           option self ''operation_type_column_name'' = Inr (Str ot) \<and>
           (if st = Str ''validity''
            then \<exists>en. option self ''end_transaction_column_name'' = Inr (Str en) \<and>
                   endp = [end_transaction_value en]
            else endp = []) \<and>
           length data = length rs + length endp + 2 \<and>
           set rs \<subseteq> set data \<and>
           map (\<lambda>a. cols s' ! a) data =
             map (\<lambda>a. cols s1 ! a) rs @ [transaction_value t] @ endp @ [operation_type_value ot]"
    by (intro conjI)
  then show ?thesis
    by - (rule exI [where x = rs], rule exI [where x = s1], rule exI [where x = t],
          rule exI [where x = st], rule exI [where x = ot], rule exI [where x = endp], assumption)
qed


subsection \<open>Option lookup\<close>

text \<open>
  C3, as amended.  \<open>option\<close> asks the manager's model-scoped lookup first.  A value it
  returns is the result.  When it raises \<open>TypeError\<close> the result is the entry of the
  dictionary \<open>manager.options\<close>, and \<open>KeyError\<close> when the name is not there.  Any
  other exception of the model-scoped lookup is the result, and the dictionary is not
  consulted.
\<close>

theorem option_two_tier:
  "(manager_option (manager self) (model self) nm = Inr v \<longrightarrow> option self nm = Inr v) \<and>
   (manager_option (manager self) (model self) nm = Inl TypeError \<longrightarrow>
      option self nm = (case options (manager self) nm of None \<Rightarrow> Inl KeyError | Some w \<Rightarrow> Inr w)) \<and>
   (manager_option (manager self) (model self) nm = Inl e \<longrightarrow> e \<noteq> TypeError \<longrightarrow>
      option self nm = Inl e)"
  by (simp add: option_def)

theorem option_two_tier_witness:
  "option strict_model ''strategy'' = Inr (Str ''validity'') \<and>
   option (table_only (Str ''flat'')) ''strategy'' = Inr (Str ''flat'') \<and>
   option strict_model ''table_name'' = Inl KeyError"
proof -
  have a: "manager_option (manager strict_model) (model strict_model) ''strategy'' =
      Inr (Str ''validity'')"
    by (simp add: strict_model_def)
  have b: "manager_option (manager (table_only (Str ''flat''))) (model (table_only (Str ''flat'')))
      ''strategy'' = Inl TypeError"
    by (simp add: table_only_def)
  have b': "options (manager (table_only (Str ''flat''))) ''strategy'' = Some (Str ''flat'')"
    by (simp add: table_only_def defaults_def)
  have c: "manager_option (manager strict_model) (model strict_model) ''table_name'' = Inl KeyError"
    by (simp add: strict_model_def)
  have d: "KeyError \<noteq> TypeError" by simp
  from option_two_tier [of strict_model "''strategy''" "Str ''validity''" KeyError] a
  have 1: "option strict_model ''strategy'' = Inr (Str ''validity'')" by blast
  from option_two_tier [of "table_only (Str ''flat'')" "''strategy''" "Str ''flat''" KeyError] b b'
  have 2: "option (table_only (Str ''flat'')) ''strategy'' = Inr (Str ''flat'')" by simp
  from option_two_tier [of strict_model "''table_name''" "Str ''flat''" KeyError] c d
  have 3: "option strict_model ''table_name'' = Inl KeyError" by blast
  from 1 2 3 show ?thesis by blast
qed

text \<open>
  C3 as stated fails: the lookup does not always return a value or a typed missing result.
  For a name that is in neither tier it raises \<open>KeyError\<close>; and the fallback depends on
  which exception the first tier raised: with \<open>KeyError\<close> from the model-scoped lookup the
  default \<open>'%s_version'\<close> of \<open>table_name\<close> is not used.
\<close>

theorem option_raises_counterexample:
  "option no_defaults ''strategy'' = Inl KeyError \<and>
   options (manager strict_model) ''table_name'' = Some (Str ''%s_version'') \<and>
   option strict_model ''table_name'' = Inl KeyError"
  by (simp add: option_def no_defaults_def strict_model_def defaults_def)

subsection \<open>The column list\<close>

lemma distinct_map_filter_notin:
  assumes "distinct (map f xs)" and "a \<in> set xs" and "\<not> P a"
  shows "f a \<notin> set (map f (filter P xs))"
proof
  assume "f a \<in> set (map f (filter P xs))"
  then obtain b where b: "b \<in> set xs" "P b" "f b = f a" by auto
  from assms(1) have "inj_on f (set xs)" by (simp add: distinct_map)
  with b(1,3) assms(2) have "b = a" by (auto dest: inj_onD)
  with b(2) assms(3) show False by simp
qed

text \<open>
  C7, as amended.  When \<open>columns\<close> returns and the columns of the parent table are objects
  of the store: the generator \<open>parent_columns\<close> yields exactly the columns of the parent
  table that its tests do not skip, in the order of the parent table.  The output is their
  copies, in that order, followed only by columns that the builder constructs: the column
  that \<open>reflected_columns\<close> adds when no copy is keyed by the transaction column name, the
  transaction column, the end-transaction column under the strategy \<open>validity\<close>, and the
  operation-type column.  So no copy of a skipped column is in the output: when the names
  of the parent columns are distinct, the name of a skipped column is not among the names
  of the copies.  Every object of the output is new.  With a model a column is skipped when
  the manager's predicate on the model and the column holds; without a model, when the
  column object itself is a member of \<open>manager.options['exclude']\<close>.
\<close>

theorem parent_order_preserved:
  assumes "columns rt self s = Inr (data, s')"
    and "allocated self s"
  shows "(\<exists>t st ot endp.
            option self ''transaction_column_name'' = Inr (Str t) \<and>
            option self ''strategy'' = Inr st \<and>
            option self ''operation_type_column_name'' = Inr (Str ot) \<and>
            (if st = Str ''validity''
             then \<exists>en. option self ''end_transaction_column_name'' = Inr (Str en) \<and>
                    endp = [end_transaction_value en]
             else endp = []) \<and>
            map (\<lambda>a. cols s' ! a) data =
              map (reflected rt self (Str t) s)
                [a \<leftarrow> tbl_c (tabs s ! parent_table self). skipped self a = Inr False] @
              (if t \<in> set (map (\<lambda>a. key (reflected rt self (Str t) s a))
                          [a \<leftarrow> tbl_c (tabs s ! parent_table self). skipped self a = Inr False])
               then [] else [plain_value t]) @
              [transaction_value t] @ endp @ [operation_type_value ot]) \<and>
         parent_columns self s =
           map Inr [a \<leftarrow> tbl_c (tabs s ! parent_table self). skipped self a = Inr False] \<and>
         map (\<lambda>a. (name (cols s' ! a), type (cols s' ! a), primary_key (cols s' ! a)))
             (take (length [a \<leftarrow> tbl_c (tabs s ! parent_table self). skipped self a = Inr False]) data) =
           map (\<lambda>a. (name (cols s ! a), type (cols s ! a), primary_key (cols s ! a)))
             [a \<leftarrow> tbl_c (tabs s ! parent_table self). skipped self a = Inr False] \<and>
         (distinct (map (\<lambda>a. name (cols s ! a)) (tbl_c (tabs s ! parent_table self))) \<longrightarrow>
          (\<forall>a \<in> set (tbl_c (tabs s ! parent_table self)).
             skipped self a \<noteq> Inr False \<longrightarrow>
             name (cols s ! a) \<notin>
               set (map (\<lambda>b. name (cols s' ! b))
                 (take (length [a \<leftarrow> tbl_c (tabs s ! parent_table self).
                                  skipped self a = Inr False]) data)))) \<and>
         (\<forall>a \<in> set data. length (cols s) \<le> a \<and> a \<notin> set (tbl_c (tabs s ! parent_table self))) \<and>
         (\<forall>a. skipped self a =
            (case model self of
               Some m \<Rightarrow> is_excluded_column (manager self) m a
             | None \<Rightarrow>
                 (case options (manager self) ''exclude'' of
                    None \<Rightarrow> Inl KeyError
                  | Some (Str x) \<Rightarrow> Inl TypeError
                  | Some (Seq xs) \<Rightarrow> Inr (ECol a \<in> set xs))))"
proof -
  let ?src = "tbl_c (tabs s ! parent_table self)"
  let ?kept = "[a \<leftarrow> ?src. skipped self a = Inr False]"
  have kd: "kept self s = ?kept" by (simp add: kept_def)
  from columns_view [OF assms(1)] assms(2) obtain t st ot rv endp where
    h: "option self ''transaction_column_name'' = Inr (Str t)"
       "option self ''strategy'' = Inr st"
       "option self ''operation_type_column_name'' = Inr (Str ot)"
       "parent_columns self s = map Inr (kept self s)"
       "length rv = length (kept self s)"
       "rv = map (reflected rt self (Str t) s) (kept self s)"
       "(if st = Str ''validity''
            then \<exists>en. option self ''end_transaction_column_name'' = Inr (Str en) \<and>
                   endp = [end_transaction_value en]
            else endp = [])"
       "map (\<lambda>a. cols s' ! a) data =
             rv @ (if t \<in> set (map key rv) then [] else [plain_value t]) @
             [transaction_value t] @ endp @ [operation_type_value ot]"
       "data = [length (cols s)..<length (cols s) + length data]"
    by blast
  have whole: "map (\<lambda>a. cols s' ! a) data =
              map (reflected rt self (Str t) s) ?kept @
              (if t \<in> set (map (\<lambda>a. key (reflected rt self (Str t) s a)) ?kept)
               then [] else [plain_value t]) @
              [transaction_value t] @ endp @ [operation_type_value ot]"
    using h(8) by (simp add: h(6) kd comp_def)
  have 0: "\<exists>t st ot endp.
            option self ''transaction_column_name'' = Inr (Str t) \<and>
            option self ''strategy'' = Inr st \<and>
            option self ''operation_type_column_name'' = Inr (Str ot) \<and>
            (if st = Str ''validity''
             then \<exists>en. option self ''end_transaction_column_name'' = Inr (Str en) \<and>
                    endp = [end_transaction_value en]
             else endp = []) \<and>
            map (\<lambda>a. cols s' ! a) data =
              map (reflected rt self (Str t) s) ?kept @
              (if t \<in> set (map (\<lambda>a. key (reflected rt self (Str t) s a)) ?kept)
               then [] else [plain_value t]) @
              [transaction_value t] @ endp @ [operation_type_value ot]"
    using h(1,2,3,7) whole
    by - (rule exI [where x = t], rule exI [where x = st], rule exI [where x = ot],
          rule exI [where x = endp], intro conjI)
  have 1: "parent_columns self s = map Inr ?kept" using h(4) kd by simp
  let ?f = "\<lambda>c. (name c, type c, primary_key c)"
  have tk: "map (\<lambda>a. cols s' ! a) (take (length ?kept) data) = rv"
    using h(5,8) kd by (simp add: take_map [symmetric])
  then have "map ?f (map (\<lambda>a. cols s' ! a) (take (length ?kept) data)) = map ?f rv"
    by simp
  then have 2: "map (\<lambda>a. ?f (cols s' ! a)) (take (length ?kept) data) =
      map (\<lambda>a. ?f (cols s ! a)) ?kept"
    by (simp add: h(6) kd comp_def)
  have names: "map (\<lambda>b. name (cols s' ! b)) (take (length ?kept) data) =
      map (\<lambda>a. name (cols s ! a)) ?kept"
  proof -
    have "map name (map (\<lambda>a. cols s' ! a) (take (length ?kept) data)) = map name rv"
      using tk by simp
    then show ?thesis by (simp add: h(6) kd comp_def)
  qed
  have 3: "distinct (map (\<lambda>a. name (cols s ! a)) ?src) \<longrightarrow>
          (\<forall>a \<in> set ?src. skipped self a \<noteq> Inr False \<longrightarrow>
             name (cols s ! a) \<notin>
               set (map (\<lambda>b. name (cols s' ! b)) (take (length ?kept) data)))"
  proof (intro impI ballI)
    fix a
    assume d: "distinct (map (\<lambda>a. name (cols s ! a)) ?src)"
      and a: "a \<in> set ?src" and sk: "skipped self a \<noteq> Inr False"
    from distinct_map_filter_notin
      [of "\<lambda>a. name (cols s ! a)" ?src a "\<lambda>a. skipped self a = Inr False", OF d a sk]
    show "name (cols s ! a) \<notin>
        set (map (\<lambda>b. name (cols s' ! b)) (take (length ?kept) data))"
      unfolding names by assumption
  qed
  have 4: "\<forall>a \<in> set data. length (cols s) \<le> a \<and> a \<notin> set ?src"
  proof
    fix a assume "a \<in> set data"
    then have "length (cols s) \<le> a" using fresh_addresses [OF h(9)] by blast
    moreover have "\<forall>b \<in> set ?src. b < length (cols s)"
      using assms(2) by (simp add: allocated_def list_all_iff)
    ultimately show "length (cols s) \<le> a \<and> a \<notin> set ?src" by auto
  qed
  have 5: "\<forall>a. skipped self a =
            (case model self of
               Some m \<Rightarrow> is_excluded_column (manager self) m a
             | None \<Rightarrow>
                 (case options (manager self) ''exclude'' of
                    None \<Rightarrow> Inl KeyError
                  | Some (Str x) \<Rightarrow> Inl TypeError
                  | Some (Seq xs) \<Rightarrow> Inr (ECol a \<in> set xs)))"
    by (simp add: skipped_def)
  from 0 1 2 3 4 5 show ?thesis by (intro conjI)
qed

theorem parent_order_preserved_witness:
  "(\<exists>data s'. columns no_plugins (table_only (Str ''flat'')) invoice = Inr (data, s') \<and>
     allocated (table_only (Str ''flat'')) invoice \<and>
     distinct (map (\<lambda>a. name (cols invoice ! a))
       (tbl_c (tabs invoice ! parent_table (table_only (Str ''flat''))))) \<and>
     2 \<in> set (tbl_c (tabs invoice ! parent_table (table_only (Str ''flat'')))) \<and>
     skipped (table_only (Str ''flat'')) 2 \<noteq> Inr False \<and>
     name (cols invoice ! 2) = ''created_at'' \<and>
     parent_columns (table_only (Str ''flat'')) invoice = [Inr 0, Inr 1] \<and>
     map (\<lambda>a. name (cols s' ! a)) data =
       [''id'', ''amount'', ''transaction_id'', ''transaction_id'', ''operation_type''] \<and>
     ''created_at'' \<notin> set (map (\<lambda>b. name (cols s' ! b)) (take 2 data)) \<and>
     (\<forall>a \<in> set data. length (cols invoice) \<le> a \<and>
        a \<notin> set (tbl_c (tabs invoice ! parent_table (table_only (Str ''flat'')))))) \<and>
   (\<exists>data s'. columns mapped_runtime with_model invoice = Inr (data, s') \<and>
     allocated with_model invoice \<and>
     parent_columns with_model invoice = [Inr 0, Inr 2] \<and>
     map (\<lambda>a. (name (cols s' ! a), type (cols s' ! a), primary_key (cols s' ! a))) (take 2 data) =
       [(''id'', OtherType ''Integer'', True), (''created_at'', OtherType ''Integer'', False)])"
proof -
  let ?self = "table_only (Str ''flat'')"
  let ?src = "tbl_c (tabs invoice ! parent_table ?self)"
  obtain data s' where r: "columns no_plugins ?self invoice = Inr (data, s')"
    by (simp add: scenario_defs builder_defs)
  have a: "allocated ?self invoice" by (simp add: allocated_def scenario_defs)
  have src: "?src = [0, 1, 2]" by (simp add: scenario_defs)
  have d: "distinct (map (\<lambda>a. name (cols invoice ! a)) ?src)"
    by (simp add: src) (simp add: invoice_def mk_col_def)
  have m: "2 \<in> set ?src" by (simp add: src)
  have sk: "skipped ?self 2 \<noteq> Inr False" by (simp add: skipped_def scenario_defs)
  have n2: "name (cols invoice ! 2) = ''created_at''" by (simp add: invoice_def mk_col_def)
  have k: "[a \<leftarrow> ?src. skipped ?self a = Inr False] = [0, 1]"
    by (simp add: src) (simp add: skipped_def scenario_defs)
  have l: "length [0::nat, 1] = 2" by simp
  note p = parent_order_preserved [OF r a, unfolded k l]
  from p have "\<exists>t st ot endp. option ?self ''transaction_column_name'' = Inr (Str t) \<and>
       option ?self ''strategy'' = Inr st \<and>
       option ?self ''operation_type_column_name'' = Inr (Str ot) \<and>
       (if st = Str ''validity''
             then \<exists>en. option ?self ''end_transaction_column_name'' = Inr (Str en) \<and>
                    endp = [end_transaction_value en]
             else endp = []) \<and>
       map (\<lambda>a. cols s' ! a) data =
              map (reflected no_plugins ?self (Str t) invoice) [0, 1] @
              (if t \<in> set (map (\<lambda>a. key (reflected no_plugins ?self (Str t) invoice a)) [0, 1])
               then [] else [plain_value t]) @
              [transaction_value t] @ endp @ [operation_type_value ot]"
    by (elim conjE)
  then obtain t st ot endp where w0: "option ?self ''transaction_column_name'' = Inr (Str t) \<and>
       option ?self ''strategy'' = Inr st \<and>
       option ?self ''operation_type_column_name'' = Inr (Str ot) \<and>
       (if st = Str ''validity''
             then \<exists>en. option ?self ''end_transaction_column_name'' = Inr (Str en) \<and>
                    endp = [end_transaction_value en]
             else endp = []) \<and>
       map (\<lambda>a. cols s' ! a) data =
              map (reflected no_plugins ?self (Str t) invoice) [0, 1] @
              (if t \<in> set (map (\<lambda>a. key (reflected no_plugins ?self (Str t) invoice a)) [0, 1])
               then [] else [plain_value t]) @
              [transaction_value t] @ endp @ [operation_type_value ot]"
    by (elim exE)
  from w0 have
    w: "option ?self ''transaction_column_name'' = Inr (Str t)"
       "option ?self ''strategy'' = Inr st"
       "option ?self ''operation_type_column_name'' = Inr (Str ot)"
       "(if st = Str ''validity''
             then \<exists>en. option ?self ''end_transaction_column_name'' = Inr (Str en) \<and>
                    endp = [end_transaction_value en]
             else endp = [])"
       "map (\<lambda>a. cols s' ! a) data =
              map (reflected no_plugins ?self (Str t) invoice) [0, 1] @
              (if t \<in> set (map (\<lambda>a. key (reflected no_plugins ?self (Str t) invoice a)) [0, 1])
               then [] else [plain_value t]) @
              [transaction_value t] @ endp @ [operation_type_value ot]"
    by blast+
  have ev: "option ?self ''transaction_column_name'' = Inr (Str ''transaction_id'')"
    "option ?self ''strategy'' = Inr (Str ''flat'')"
    "option ?self ''operation_type_column_name'' = Inr (Str ''operation_type'')"
    by (simp_all add: option_def table_only_def defaults_def)
  from w(1,2,3) ev have v: "t = ''transaction_id''" "st = Str ''flat''" "ot = ''operation_type''"
    by simp_all
  from w(4) v(2) have e: "endp = []" by simp
  have "map name (map (\<lambda>a. cols s' ! a) data) =
      [''id'', ''amount'', ''transaction_id'', ''transaction_id'', ''operation_type'']"
    by (subst w(5))
       (simp add: v e reflected_def reflected_value_def mapper_items_def table_only_def
          invoice_def mk_col_def plain_value_def transaction_value_def operation_type_value_def)
  then have 1: "map (\<lambda>a. name (cols s' ! a)) data =
      [''id'', ''amount'', ''transaction_id'', ''transaction_id'', ''operation_type'']"
    by (simp add: comp_def)
  from p have "parent_columns ?self invoice = map Inr [0, 1]" by (elim conjE)
  then have 2: "parent_columns ?self invoice = [Inr 0, Inr 1]" by simp
  from p have "distinct (map (\<lambda>a. name (cols invoice ! a)) ?src) \<longrightarrow>
          (\<forall>a \<in> set ?src. skipped ?self a \<noteq> Inr False \<longrightarrow>
             name (cols invoice ! a) \<notin> set (map (\<lambda>b. name (cols s' ! b)) (take 2 data)))"
    by (elim conjE)
  with d m sk have "name (cols invoice ! 2) \<notin> set (map (\<lambda>b. name (cols s' ! b)) (take 2 data))"
    by blast
  then have 3: "''created_at'' \<notin> set (map (\<lambda>b. name (cols s' ! b)) (take 2 data))"
    unfolding n2 by assumption
  from p have 4: "\<forall>a \<in> set data. length (cols invoice) \<le> a \<and> a \<notin> set ?src"
    by (elim conjE)
  from r a d m sk n2 2 1 3 4 have A:
    "\<exists>data s'. columns no_plugins ?self invoice = Inr (data, s') \<and>
     allocated ?self invoice \<and>
     distinct (map (\<lambda>a. name (cols invoice ! a)) ?src) \<and>
     2 \<in> set ?src \<and>
     skipped ?self 2 \<noteq> Inr False \<and>
     name (cols invoice ! 2) = ''created_at'' \<and>
     parent_columns ?self invoice = [Inr 0, Inr 1] \<and>
     map (\<lambda>a. name (cols s' ! a)) data =
       [''id'', ''amount'', ''transaction_id'', ''transaction_id'', ''operation_type''] \<and>
     ''created_at'' \<notin> set (map (\<lambda>b. name (cols s' ! b)) (take 2 data)) \<and>
     (\<forall>a \<in> set data. length (cols invoice) \<le> a \<and> a \<notin> set ?src)"
    by - (rule exI [where x = data], rule exI [where x = s'], intro conjI)
  obtain data' s'' where r': "columns mapped_runtime with_model invoice = Inr (data', s'')"
    by (simp add: with_model_def mapped_runtime_def defaults_def invoice_def mk_col_def
          builder_defs)
  have a': "allocated with_model invoice"
    by (simp add: allocated_def with_model_def invoice_def)
  have k': "[a \<leftarrow> tbl_c (tabs invoice ! parent_table with_model).
              skipped with_model a = Inr False] = [0, 2]"
    by (simp add: skipped_def with_model_def invoice_def)
  have l': "length [0::nat, 2] = 2" by simp
  note p' = parent_order_preserved [OF r' a', unfolded k' l']
  from p' have "parent_columns with_model invoice = map Inr [0, 2]" by (elim conjE)
  then have 5: "parent_columns with_model invoice = [Inr 0, Inr 2]" by simp
  have v': "map (\<lambda>a. (name (cols invoice ! a), type (cols invoice ! a),
                     primary_key (cols invoice ! a))) [0, 2] =
      [(''id'', OtherType ''Integer'', True), (''created_at'', OtherType ''Integer'', False)]"
    by (simp add: invoice_def mk_col_def)
  from p' have 6: "map (\<lambda>a. (name (cols s'' ! a), type (cols s'' ! a), primary_key (cols s'' ! a)))
        (take 2 data') =
      [(''id'', OtherType ''Integer'', True), (''created_at'', OtherType ''Integer'', False)]"
    unfolding v' by (elim conjE)
  from r' a' 5 6 have B:
    "\<exists>data s'. columns mapped_runtime with_model invoice = Inr (data, s') \<and>
     allocated with_model invoice \<and>
     parent_columns with_model invoice = [Inr 0, Inr 2] \<and>
     map (\<lambda>a. (name (cols s' ! a), type (cols s' ! a), primary_key (cols s' ! a))) (take 2 data) =
       [(''id'', OtherType ''Integer'', True), (''created_at'', OtherType ''Integer'', False)]"
    by - (rule exI [where x = data'], rule exI [where x = s''], intro conjI)
  from A B show ?thesis by (rule conjI)
qed

text \<open>
  C7 as stated fails for a set of excluded names.  Without a model the test is
  \<open>column in manager.options['exclude']\<close>, on the column object; a collection of names has
  no column object among its members.  With \<open>exclude = ['created_at']\<close> and no model, the
  column \<open>created_at\<close> of \<open>invoice\<close> is reflected into the output.
\<close>

theorem parent_order_counterexample:
  "model by_name = None \<and>
   options (manager by_name) ''exclude'' = Some (Seq [EStr ''created_at'']) \<and>
   described name (columns no_plugins by_name invoice) =
     Inr [''id'', ''amount'', ''created_at'', ''transaction_id'', ''transaction_id'',
          ''operation_type'']"
  by (simp add: by_name_def described_def scenario_defs builder_defs)

text \<open>
  C5, as amended.  Without \<open>extends\<close>, when \<open>columns\<close> returns, the list is the reflected columns, the
  transaction column, and the operation-type column last; under the strategy \<open>validity\<close>,
  and only then, the end-transaction column is appended between the last two: nullable,
  indexed, of type \<open>BigInteger\<close>, named and keyed by \<open>end_transaction_column_name\<close>.
  When no reflected column has the key \<open>end_transaction_column_name\<close> and that name differs
  from the names of the transaction and operation-type columns, the list has a column with
  that key if and only if the strategy is \<open>validity\<close>.  With \<open>extends\<close> given, the base
  column list is empty.
\<close>

theorem end_transaction_column_appended:
  assumes "base_columns rt self None s = Inr (data, s')"
  shows "(\<exists>rs s1 t st ot.
           reflected_columns rt self s = Inr (rs, s1) \<and>
           option self ''transaction_column_name'' = Inr (Str t) \<and>
           option self ''strategy'' = Inr st \<and>
           option self ''operation_type_column_name'' = Inr (Str ot) \<and>
           (if st = Str ''validity''
            then \<exists>en. option self ''end_transaction_column_name'' = Inr (Str en) \<and>
                   map (\<lambda>a. cols s' ! a) data =
                     map (\<lambda>a. cols s1 ! a) rs @
                     [transaction_value t,
                      \<lparr>name = en, key = en, type = BigInteger, primary_key = False,
                       nullable = True, autoincrement = Auto, unique = None, index = Some True,
                       onupdate = None\<rparr>,
                      operation_type_value ot]
            else map (\<lambda>a. cols s' ! a) data =
                   map (\<lambda>a. cols s1 ! a) rs @ [transaction_value t, operation_type_value ot]) \<and>
           (\<forall>en. option self ''end_transaction_column_name'' = Inr (Str en) \<longrightarrow>
                 en \<notin> set (map (\<lambda>a. key (cols s1 ! a)) rs) \<longrightarrow> en \<noteq> t \<longrightarrow> en \<noteq> ot \<longrightarrow>
                 ((\<exists>a \<in> set data. key (cols s' ! a) = en) \<longleftrightarrow> st = Str ''validity''))) \<and>
         base_columns rt self (Some x) s = Inr ([], s)"
proof -
  from assms have co: "columns rt self s = Inr (data, s')" by (simp add: base_columns_def)
  have ex: "base_columns rt self (Some x) s = Inr ([], s)" by (simp add: base_columns_def)
  from columns_tail [OF co] obtain rs s1 t st ot endp where
    h: "reflected_columns rt self s = Inr (rs, s1)"
       "option self ''transaction_column_name'' = Inr (Str t)"
       "option self ''strategy'' = Inr st"
       "option self ''operation_type_column_name'' = Inr (Str ot)"
       "(if st = Str ''validity''
            then \<exists>en. option self ''end_transaction_column_name'' = Inr (Str en) \<and>
                   endp = [end_transaction_value en]
            else endp = [])"
       "length data = length rs + length endp + 2"
       "set rs \<subseteq> set data"
       "map (\<lambda>a. cols s' ! a) data =
          map (\<lambda>a. cols s1 ! a) rs @ [transaction_value t] @ endp @ [operation_type_value ot]"
    by blast
  have keys: "(\<lambda>a. key (cols s' ! a)) ` set data =
      set (map (\<lambda>a. key (cols s1 ! a)) rs) \<union> {t, ot} \<union> key ` set endp"
  proof -
    have "(\<lambda>a. key (cols s' ! a)) ` set data = key ` set (map (\<lambda>a. cols s' ! a) data)"
      by (simp add: image_image)
    also have "\<dots> = set (map (\<lambda>a. key (cols s1 ! a)) rs) \<union> {t, ot} \<union> key ` set endp"
      by (subst h(8))
         (auto simp: image_Un image_image transaction_value_def operation_type_value_def)
    finally show ?thesis .
  qed
  have a: "(if st = Str ''validity''
            then \<exists>en. option self ''end_transaction_column_name'' = Inr (Str en) \<and>
                   map (\<lambda>a. cols s' ! a) data =
                     map (\<lambda>a. cols s1 ! a) rs @
                     [transaction_value t,
                      \<lparr>name = en, key = en, type = BigInteger, primary_key = False,
                       nullable = True, autoincrement = Auto, unique = None, index = Some True,
                       onupdate = None\<rparr>,
                      operation_type_value ot]
            else map (\<lambda>a. cols s' ! a) data =
                   map (\<lambda>a. cols s1 ! a) rs @ [transaction_value t, operation_type_value ot])"
    using h(5,8) by (auto simp: end_transaction_value_def split: if_splits)
  have b: "\<forall>en. option self ''end_transaction_column_name'' = Inr (Str en) \<longrightarrow>
                 en \<notin> set (map (\<lambda>a. key (cols s1 ! a)) rs) \<longrightarrow> en \<noteq> t \<longrightarrow> en \<noteq> ot \<longrightarrow>
                 ((\<exists>a \<in> set data. key (cols s' ! a) = en) \<longleftrightarrow> st = Str ''validity'')"
  proof (intro allI impI)
    fix en
    assume en: "option self ''end_transaction_column_name'' = Inr (Str en)"
      and d: "en \<notin> set (map (\<lambda>a. key (cols s1 ! a)) rs)" "en \<noteq> t" "en \<noteq> ot"
    have "(\<exists>a \<in> set data. key (cols s' ! a) = en) \<longleftrightarrow> en \<in> (\<lambda>a. key (cols s' ! a)) ` set data"
      by auto
    also have "\<dots> \<longleftrightarrow> en \<in> key ` set endp" using d by (simp only: keys) auto
    also have "\<dots> \<longleftrightarrow> st = Str ''validity''"
      using h(5) en by (auto simp: end_transaction_value_def split: if_splits)
    finally show "(\<exists>a \<in> set data. key (cols s' ! a) = en) \<longleftrightarrow> st = Str ''validity''" .
  qed
  from h(1-4) a b have "\<exists>rs s1 t st ot.
           reflected_columns rt self s = Inr (rs, s1) \<and>
           option self ''transaction_column_name'' = Inr (Str t) \<and>
           option self ''strategy'' = Inr st \<and>
           option self ''operation_type_column_name'' = Inr (Str ot) \<and>
           (if st = Str ''validity''
            then \<exists>en. option self ''end_transaction_column_name'' = Inr (Str en) \<and>
                   map (\<lambda>a. cols s' ! a) data =
                     map (\<lambda>a. cols s1 ! a) rs @
                     [transaction_value t,
                      \<lparr>name = en, key = en, type = BigInteger, primary_key = False,
                       nullable = True, autoincrement = Auto, unique = None, index = Some True,
                       onupdate = None\<rparr>,
                      operation_type_value ot]
            else map (\<lambda>a. cols s' ! a) data =
                   map (\<lambda>a. cols s1 ! a) rs @ [transaction_value t, operation_type_value ot]) \<and>
           (\<forall>en. option self ''end_transaction_column_name'' = Inr (Str en) \<longrightarrow>
                 en \<notin> set (map (\<lambda>a. key (cols s1 ! a)) rs) \<longrightarrow> en \<noteq> t \<longrightarrow> en \<noteq> ot \<longrightarrow>
                 ((\<exists>a \<in> set data. key (cols s' ! a) = en) \<longleftrightarrow> st = Str ''validity''))"
    by - (rule exI [where x = rs], rule exI [where x = s1], rule exI [where x = t],
          rule exI [where x = st], rule exI [where x = ot], intro conjI)
  with ex show ?thesis by (intro conjI)
qed

theorem end_transaction_column_appended_witness:
  "\<exists>data s'.
     base_columns no_plugins (table_only (Str ''validity'')) None invoice = Inr (data, s') \<and>
     ((\<exists>rs s1 t st ot.
           reflected_columns no_plugins (table_only (Str ''validity'')) invoice = Inr (rs, s1) \<and>
           option (table_only (Str ''validity'')) ''transaction_column_name'' = Inr (Str t) \<and>
           option (table_only (Str ''validity'')) ''strategy'' = Inr st \<and>
           option (table_only (Str ''validity'')) ''operation_type_column_name'' = Inr (Str ot) \<and>
           (if st = Str ''validity''
            then \<exists>en. option (table_only (Str ''validity'')) ''end_transaction_column_name'' =
                     Inr (Str en) \<and>
                   map (\<lambda>a. cols s' ! a) data =
                     map (\<lambda>a. cols s1 ! a) rs @
                     [transaction_value t,
                      \<lparr>name = en, key = en, type = BigInteger, primary_key = False,
                       nullable = True, autoincrement = Auto, unique = None, index = Some True,
                       onupdate = None\<rparr>,
                      operation_type_value ot]
            else map (\<lambda>a. cols s' ! a) data =
                   map (\<lambda>a. cols s1 ! a) rs @ [transaction_value t, operation_type_value ot]) \<and>
           (\<forall>en. option (table_only (Str ''validity'')) ''end_transaction_column_name'' =
                   Inr (Str en) \<longrightarrow>
                 en \<notin> set (map (\<lambda>a. key (cols s1 ! a)) rs) \<longrightarrow> en \<noteq> t \<longrightarrow> en \<noteq> ot \<longrightarrow>
                 ((\<exists>a \<in> set data. key (cols s' ! a) = en) \<longleftrightarrow> st = Str ''validity''))) \<and>
      base_columns no_plugins (table_only (Str ''validity'')) (Some 0) invoice =
        Inr ([], invoice)) \<and>
     option (table_only (Str ''validity'')) ''end_transaction_column_name'' =
       Inr (Str ''end_transaction_id'') \<and>
     described key (reflected_columns no_plugins (table_only (Str ''validity'')) invoice) =
       Inr [''id'', ''amount'', ''transaction_id'']"
proof -
  obtain data s' where
    r: "base_columns no_plugins (table_only (Str ''validity'')) None invoice = Inr (data, s')"
    by (simp add: base_columns_def scenario_defs builder_defs)
  have e: "option (table_only (Str ''validity'')) ''end_transaction_column_name'' =
       Inr (Str ''end_transaction_id'')"
    by (simp add: option_def scenario_defs)
  have k: "described key (reflected_columns no_plugins (table_only (Str ''validity'')) invoice) =
       Inr [''id'', ''amount'', ''transaction_id'']"
    by (simp add: described_def scenario_defs builder_defs)
  from end_transaction_column_appended [OF r, of 0] r e k show ?thesis
    by - (rule exI [where x = data], rule exI [where x = s'], elim conjE, intro conjI)
qed

text \<open>
  C5 as stated fails.  Under the strategy \<open>flat\<close> the list for the table \<open>ledger\<close> has a
  column keyed \<open>end_transaction_id\<close>, the copy of the parent's own column; and with
  \<open>extends\<close> given, the list is empty under the strategy \<open>validity\<close>.
\<close>

theorem end_transaction_column_counterexample:
  "option (table_only (Str ''flat'')) ''strategy'' = Inr (Str ''flat'') \<and>
   option (table_only (Str ''flat'')) ''end_transaction_column_name'' =
     Inr (Str ''end_transaction_id'') \<and>
   described key (columns no_plugins (table_only (Str ''flat'')) ledger) =
     Inr [''id'', ''end_transaction_id'', ''transaction_id'', ''transaction_id'',
          ''operation_type''] \<and>
   option (table_only (Str ''validity'')) ''strategy'' = Inr (Str ''validity'') \<and>
   base_columns no_plugins (table_only (Str ''validity'')) (Some 0) invoice = Inr ([], invoice)"
  by (simp add: base_columns_def described_def ledger_def scenario_defs builder_defs)

text \<open>
  C6, as amended.  Without \<open>extends\<close>, when \<open>columns\<close> returns, the list is not empty and its last column is
  the operation-type column, under every strategy: named and keyed by
  \<open>operation_type_column_name\<close>, non-null, indexed, of type \<open>SmallInteger\<close>.  With
  \<open>extends\<close> given, the base column list is empty.
\<close>

theorem operation_type_column_last:
  assumes "base_columns rt self None s = Inr (data, s')"
  shows "(\<exists>ot. option self ''operation_type_column_name'' = Inr (Str ot) \<and> data \<noteq> [] \<and>
           cols s' ! last data =
             \<lparr>name = ot, key = ot, type = SmallInteger, primary_key = False, nullable = False,
              autoincrement = Auto, unique = None, index = Some True, onupdate = None\<rparr>) \<and>
         base_columns rt self (Some x) s = Inr ([], s)"
proof -
  from assms have co: "columns rt self s = Inr (data, s')" by (simp add: base_columns_def)
  have ex: "base_columns rt self (Some x) s = Inr ([], s)" by (simp add: base_columns_def)
  from columns_tail [OF co] obtain rs s1 t st ot endp where
    h: "reflected_columns rt self s = Inr (rs, s1)"
       "option self ''transaction_column_name'' = Inr (Str t)"
       "option self ''strategy'' = Inr st"
       "option self ''operation_type_column_name'' = Inr (Str ot)"
       "(if st = Str ''validity''
            then \<exists>en. option self ''end_transaction_column_name'' = Inr (Str en) \<and>
                   endp = [end_transaction_value en]
            else endp = [])"
       "length data = length rs + length endp + 2"
       "set rs \<subseteq> set data"
       "map (\<lambda>a. cols s' ! a) data =
          map (\<lambda>a. cols s1 ! a) rs @ [transaction_value t] @ endp @ [operation_type_value ot]"
    by blast
  from h(6) have ne: "data \<noteq> []" by auto
  then have "cols s' ! last data = last (map (\<lambda>a. cols s' ! a) data)"
    by (simp add: last_map)
  also have "\<dots> = operation_type_value ot" by (simp add: h(8))
  finally show ?thesis using h(4) ne ex by (simp add: operation_type_value_def)
qed

theorem operation_type_column_last_witness:
  "\<exists>data s'.
     base_columns no_plugins (table_only (Str ''validity'')) None invoice = Inr (data, s') \<and>
     ((\<exists>ot. option (table_only (Str ''validity'')) ''operation_type_column_name'' = Inr (Str ot) \<and>
        data \<noteq> [] \<and>
        cols s' ! last data =
          \<lparr>name = ot, key = ot, type = SmallInteger, primary_key = False, nullable = False,
           autoincrement = Auto, unique = None, index = Some True, onupdate = None\<rparr>) \<and>
      base_columns no_plugins (table_only (Str ''validity'')) (Some 0) invoice =
        Inr ([], invoice))"
proof -
  obtain data s' where
    r: "base_columns no_plugins (table_only (Str ''validity'')) None invoice = Inr (data, s')"
    by (simp add: base_columns_def scenario_defs builder_defs)
  from operation_type_column_last [OF r, of 0] r show ?thesis
    by - (rule exI [where x = data], rule exI [where x = s'], elim conjE, intro conjI)
qed

text \<open>
  C6 as stated fails.  With \<open>extends\<close> given, the list is empty and has no operation-type
  column; and under the strategy \<open>validity\<close> the operation-type column is still the last
  one, the second from the end being the end-transaction column.
\<close>

theorem operation_type_column_counterexample:
  "base_columns no_plugins (table_only (Str ''validity'')) (Some 0) invoice = Inr ([], invoice) \<and>
   described key (columns no_plugins (table_only (Str ''validity'')) invoice) =
     Inr [''id'', ''amount'', ''transaction_id'', ''transaction_id'', ''end_transaction_id'',
          ''operation_type''] \<and>
   described type (columns no_plugins (table_only (Str ''validity'')) invoice) =
     Inr [OtherType ''Integer'', OtherType ''Integer'', BigInteger, BigInteger, BigInteger,
          SmallInteger]"
  by (simp add: base_columns_def described_def scenario_defs builder_defs)

subsection \<open>Building the table\<close>

lemma call_extend:
  "call rt self (Some x) s =
     (case after_build_version_table_columns rt self [] (cols s) of
        Inl e \<Rightarrow> Inl e
      | Inr (columns1, h) \<Rightarrow>
          sa_Table (tbl_name (tabs s ! x)) (tbl_metadata (tabs s ! parent_table self)) columns1
            True (s\<lparr>cols := h\<rparr>))"
  by (simp add: call_def base_columns_def Let_def split: sum.splits prod.splits)

lemma call_normal:
  "call rt self None s =
     (case columns rt self s of
        Inl e \<Rightarrow> Inl e
      | Inr (data, s1) \<Rightarrow>
          (case after_build_version_table_columns rt self data (cols s1) of
             Inl e \<Rightarrow> Inl e
           | Inr (columns1, h) \<Rightarrow>
               (case table_name rt self (s1\<lparr>cols := h\<rparr>) of
                  Inl e \<Rightarrow> Inl e
                | Inr nm \<Rightarrow>
                    sa_Table nm (tbl_metadata (tabs s1 ! parent_table self)) columns1 False
                      (s1\<lparr>cols := h\<rparr>))))"
  by (simp add: call_def base_columns_def Let_def split: sum.splits prod.splits)

lemma table_name_tabs:
  "tabs s2 = tabs s \<Longrightarrow> table_name rt self s2 = table_name rt self s"
  by (auto simp: table_name_def split: sum.splits pyval.splits)

lemma columns_frame:
  assumes "columns rt self s = Inr (data, s')"
  shows "tabs s' = tabs s \<and> tables s' = tables s"
proof -
  from columns_Inr [OF assms] obtain rs s1 t st ot endp where
    h: "reflected_columns rt self s = Inr (rs, s1)"
       "s' = s1\<lparr>cols := cols s1 @ [transaction_value t] @ endp @ [operation_type_value ot]\<rparr>"
    by auto
  from reflected_columns_Inr [OF h(1)] obtain ext where "s1 = s\<lparr>cols := cols s @ ext\<rparr>"
    by auto
  with h(2) show ?thesis by simp
qed

text \<open>
  C10.  With \<open>extends\<close> given, \<open>__call__\<close> is the hook applied once to the empty list,
  followed by the table constructor on the name of \<open>extends\<close>, the metadata of the parent
  table and the list the hook returned, with \<open>extend_existing\<close> set.  No option occurs in
  it: two builders on the same parent table, with any managers, models and runtimes, give
  the same result as soon as the hook answers them alike, also when every option lookup of
  one of them raises.
\<close>

theorem extend_ignores_options:
  "call rt self (Some x) s =
     (case after_build_version_table_columns rt self [] (cols s) of
        Inl e \<Rightarrow> Inl e
      | Inr (columns1, h) \<Rightarrow>
          sa_Table (tbl_name (tabs s ! x)) (tbl_metadata (tabs s ! parent_table self)) columns1
            True (s\<lparr>cols := h\<rparr>)) \<and>
   (parent_table self' = parent_table self \<longrightarrow>
    after_build_version_table_columns rt' self' [] (cols s) =
      after_build_version_table_columns rt self [] (cols s) \<longrightarrow>
    call rt' self' (Some x) s = call rt self (Some x) s)"
  by (auto simp: call_extend split: sum.splits)

theorem extend_ignores_options_witness:
  "parent_table no_defaults = parent_table (table_only (Str ''validity'')) \<and>
   after_build_version_table_columns one_plugin no_defaults [] (cols versioned) =
     after_build_version_table_columns one_plugin (table_only (Str ''validity'')) []
       (cols versioned) \<and>
   option no_defaults ''strategy'' = Inl KeyError \<and>
   option (table_only (Str ''validity'')) ''strategy'' = Inr (Str ''validity'') \<and>
   call one_plugin no_defaults (Some 1) versioned =
     call one_plugin (table_only (Str ''validity'')) (Some 1) versioned \<and>
   call one_plugin no_defaults (Some 1) versioned =
     sa_Table ''invoice_version'' 0 [6] True
       (versioned\<lparr>cols := cols versioned @ [mk_col ''extra'' False]\<rparr>)"
proof -
  have a: "parent_table no_defaults = parent_table (table_only (Str ''validity''))"
    by (simp add: no_defaults_def table_only_def)
  have b: "after_build_version_table_columns one_plugin no_defaults [] (cols versioned) =
     after_build_version_table_columns one_plugin (table_only (Str ''validity'')) []
       (cols versioned)"
    by (simp add: one_plugin_def)
  have c: "option no_defaults ''strategy'' = Inl KeyError"
    by (simp add: option_def no_defaults_def)
  have d: "option (table_only (Str ''validity'')) ''strategy'' = Inr (Str ''validity'')"
    by (simp add: option_def table_only_def defaults_def)
  note e = extend_ignores_options [of one_plugin "table_only (Str ''validity'')" 1 versioned
      no_defaults one_plugin]
  from e a b have 1: "call one_plugin no_defaults (Some 1) versioned =
     call one_plugin (table_only (Str ''validity'')) (Some 1) versioned"
    by (elim conjE) simp
  have h0: "after_build_version_table_columns one_plugin no_defaults [] (cols versioned) =
      Inr ([6], cols versioned @ [mk_col ''extra'' False])"
    by (simp add: one_plugin_def versioned_def)
  have n: "tbl_name (tabs versioned ! Suc 0) = ''invoice_version''"
    "tbl_metadata (tabs versioned ! parent_table no_defaults) = 0"
    by (simp_all add: versioned_def no_defaults_def)
  from extend_ignores_options [of one_plugin no_defaults 1 versioned no_defaults one_plugin]
  have "call one_plugin no_defaults (Some 1) versioned =
     (case after_build_version_table_columns one_plugin no_defaults [] (cols versioned) of
        Inl e \<Rightarrow> Inl e
      | Inr (columns1, h) \<Rightarrow>
          sa_Table (tbl_name (tabs versioned ! 1))
            (tbl_metadata (tabs versioned ! parent_table no_defaults)) columns1
            True (versioned\<lparr>cols := h\<rparr>))"
    by (elim conjE)
  then have 2: "call one_plugin no_defaults (Some 1) versioned =
     sa_Table ''invoice_version'' 0 [6] True
       (versioned\<lparr>cols := cols versioned @ [mk_col ''extra'' False]\<rparr>)"
    by (simp add: h0 n)
  from a b c d 1 2 show ?thesis by (intro conjI)
qed

lemma table_name_Inr:
  "table_name rt self s = Inr nm \<Longrightarrow>
   \<exists>tmpl. option self ''table_name'' = Inr (Str tmpl) \<and>
          str_mod rt tmpl (tbl_name (tabs s ! parent_table self)) = Inr nm"
  by (auto simp: table_name_def split: sum.splits pyval.splits)

lemma sa_Table_new:
  "sa_Table nm md cs False s = Inr (t, s') \<Longrightarrow>
   tables s (md, nm) = None \<and> t = length (tabs s) \<and>
   s' = s\<lparr>tabs := tabs s @ [\<lparr>tbl_name = nm, tbl_c = cs, tbl_metadata = md\<rparr>],
          tables := (tables s)((md, nm) \<mapsto> length (tabs s))\<rparr>"
  by (auto simp: sa_Table_def split: option.splits)

text \<open>
  C4.  Let \<open>extends\<close> be a table of the store that the catalog of the parent table holds
  under its name.  When \<open>__call__\<close> returns, the base column list is empty; the hook ran
  on the empty list; the constructor was given the name of \<open>extends\<close> with
  \<open>extend_existing\<close> set; the returned table is \<open>extends\<close> itself, no table was
  created and the catalog is unchanged; and the table is what it was with the columns of
  the hook added at the end.
\<close>

theorem extend_reuses_table:
  assumes "call rt self (Some x) s = Inr (t, s')"
    and "tables s (tbl_metadata (tabs s ! parent_table self), tbl_name (tabs s ! x)) = Some x"
    and "x < length (tabs s)"
  shows "base_columns rt self (Some x) s = Inr ([], s) \<and>
         (\<exists>added h.
            after_build_version_table_columns rt self [] (cols s) = Inr (added, h) \<and>
            call rt self (Some x) s =
              sa_Table (tbl_name (tabs s ! x)) (tbl_metadata (tabs s ! parent_table self)) added
                True (s\<lparr>cols := h\<rparr>) \<and>
            t = x \<and> cols s' = h \<and> tables s' = tables s \<and>
            length (tabs s') = length (tabs s) \<and>
            tabs s' ! t = (tabs s ! x)\<lparr>tbl_c := tbl_c (tabs s ! x) @ added\<rparr> \<and>
            tabs s' = (tabs s)[x := (tabs s ! x)\<lparr>tbl_c := tbl_c (tabs s ! x) @ added\<rparr>])"
proof -
  have b: "base_columns rt self (Some x) s = Inr ([], s)" by (simp add: base_columns_def)
  obtain added h where
    hk: "after_build_version_table_columns rt self [] (cols s) = Inr (added, h)"
    using assms(1)
    by (cases "after_build_version_table_columns rt self [] (cols s)") (auto simp: call_extend)
  have c: "call rt self (Some x) s =
      sa_Table (tbl_name (tabs s ! x)) (tbl_metadata (tabs s ! parent_table self)) added
        True (s\<lparr>cols := h\<rparr>)"
    by (simp add: call_extend hk)
  have r: "sa_Table (tbl_name (tabs s ! x)) (tbl_metadata (tabs s ! parent_table self)) added
        True (s\<lparr>cols := h\<rparr>) =
      Inr (x, s\<lparr>cols := h,
                tabs := (tabs s)[x := (tabs s ! x)\<lparr>tbl_c := tbl_c (tabs s ! x) @ added\<rparr>]\<rparr>)"
    using assms(2) by (simp add: sa_Table_def)
  from assms(1) c r have "Inr (t, s') =
      (Inr (x, s\<lparr>cols := h,
                tabs := (tabs s)[x := (tabs s ! x)\<lparr>tbl_c := tbl_c (tabs s ! x) @ added\<rparr>]\<rparr>)
        :: py_error + addr \<times> state)"
    by (simp only:)
  then have t: "t = x"
    and s': "s' = s\<lparr>cols := h,
                tabs := (tabs s)[x := (tabs s ! x)\<lparr>tbl_c := tbl_c (tabs s ! x) @ added\<rparr>]\<rparr>"
    by auto
  have "after_build_version_table_columns rt self [] (cols s) = Inr (added, h) \<and>
            call rt self (Some x) s =
              sa_Table (tbl_name (tabs s ! x)) (tbl_metadata (tabs s ! parent_table self)) added
                True (s\<lparr>cols := h\<rparr>) \<and>
            t = x \<and> cols s' = h \<and> tables s' = tables s \<and>
            length (tabs s') = length (tabs s) \<and>
            tabs s' ! t = (tabs s ! x)\<lparr>tbl_c := tbl_c (tabs s ! x) @ added\<rparr> \<and>
            tabs s' = (tabs s)[x := (tabs s ! x)\<lparr>tbl_c := tbl_c (tabs s ! x) @ added\<rparr>]"
    using hk c t assms(3) by (simp add: s')
  then have "\<exists>added h.
            after_build_version_table_columns rt self [] (cols s) = Inr (added, h) \<and>
            call rt self (Some x) s =
              sa_Table (tbl_name (tabs s ! x)) (tbl_metadata (tabs s ! parent_table self)) added
                True (s\<lparr>cols := h\<rparr>) \<and>
            t = x \<and> cols s' = h \<and> tables s' = tables s \<and>
            length (tabs s') = length (tabs s) \<and>
            tabs s' ! t = (tabs s ! x)\<lparr>tbl_c := tbl_c (tabs s ! x) @ added\<rparr> \<and>
            tabs s' = (tabs s)[x := (tabs s ! x)\<lparr>tbl_c := tbl_c (tabs s ! x) @ added\<rparr>]"
    by - (rule exI [where x = added], rule exI [where x = h], assumption)
  with b show ?thesis by (intro conjI)
qed

theorem extend_reuses_table_witness:
  "\<exists>t s'. call one_plugin (table_only (Str ''validity'')) (Some 1) versioned = Inr (t, s') \<and>
     tables versioned
       (tbl_metadata (tabs versioned ! parent_table (table_only (Str ''validity''))),
        tbl_name (tabs versioned ! 1)) = Some 1 \<and>
     1 < length (tabs versioned) \<and>
     base_columns one_plugin (table_only (Str ''validity'')) (Some 1) versioned =
       Inr ([], versioned) \<and>
     t = 1 \<and> tables s' = tables versioned \<and> length (tabs s') = length (tabs versioned) \<and>
     tabs s' ! t = \<lparr>tbl_name = ''invoice_version'', tbl_c = [3, 4, 5, 6], tbl_metadata = 0\<rparr>"
proof -
  let ?self = "table_only (Str ''validity'')"
  have h0: "after_build_version_table_columns one_plugin ?self [] (cols versioned) =
      Inr ([6], cols versioned @ [mk_col ''extra'' False])"
    by (simp add: one_plugin_def versioned_def)
  have a: "tables versioned
       (tbl_metadata (tabs versioned ! parent_table ?self), tbl_name (tabs versioned ! 1)) = Some 1"
    by (simp add: versioned_def table_only_def)
  have b: "1 < length (tabs versioned)" by (simp add: versioned_def)
  have "\<exists>t s'. call one_plugin ?self (Some 1) versioned = Inr (t, s')"
    using a by (simp add: call_extend h0 sa_Table_def)
  then obtain t s' where r: "call one_plugin ?self (Some 1) versioned = Inr (t, s')"
    by blast
  from extend_reuses_table [OF r a b] obtain added h where
    e: "base_columns one_plugin ?self (Some 1) versioned = Inr ([], versioned)"
       "after_build_version_table_columns one_plugin ?self [] (cols versioned) = Inr (added, h)"
       "t = 1" "tables s' = tables versioned" "length (tabs s') = length (tabs versioned)"
       "tabs s' ! t = (tabs versioned ! 1)\<lparr>tbl_c := tbl_c (tabs versioned ! 1) @ added\<rparr>"
    by auto
  from e(2) h0 have "added = [6]" by simp
  with e(6) have "tabs s' ! t =
      \<lparr>tbl_name = ''invoice_version'', tbl_c = [3, 4, 5, 6], tbl_metadata = 0\<rparr>"
    by (simp add: versioned_def)
  with r a b e(1,3,4,5) show ?thesis
    by - (rule exI [where x = t], rule exI [where x = s'], intro conjI)
qed

text \<open>
  C8.  Without \<open>extends\<close>: when \<open>__call__\<close> returns, the name of the returned table is
  the template \<open>table_name\<close> applied with \<open>%\<close> to the name of the parent table, the table
  is new, and it is entered under that name in the catalog of the parent table, where the
  name was free.  When the column list, the hook and the name are computed and the name is
  already taken in that catalog, \<open>__call__\<close> ends with the catalog conflict, since the
  constructor is called with \<open>extend_existing\<close> unset.
\<close>

theorem normal_mode_table_name:
  "(call rt self None s = Inr (t, s') \<longrightarrow>
      (\<exists>tmpl nm.
         option self ''table_name'' = Inr (Str tmpl) \<and>
         str_mod rt tmpl (tbl_name (tabs s ! parent_table self)) = Inr nm \<and>
         tbl_name (tabs s' ! t) = nm \<and>
         tbl_metadata (tabs s' ! t) = tbl_metadata (tabs s ! parent_table self) \<and>
         tables s (tbl_metadata (tabs s ! parent_table self), nm) = None \<and>
         tables s' (tbl_metadata (tabs s ! parent_table self), nm) = Some t \<and>
         t = length (tabs s))) \<and>
   (columns rt self s = Inr (data, s1) \<longrightarrow>
    after_build_version_table_columns rt self data (cols s1) = Inr (data', h) \<longrightarrow>
    table_name rt self s = Inr name0 \<longrightarrow>
    tables s (tbl_metadata (tabs s ! parent_table self), name0) = Some t0 \<longrightarrow>
    call rt self None s = Inl CatalogConflictError)"
proof (intro conjI impI)
  assume c: "call rt self None s = Inr (t, s')"
  obtain d s1 where co: "columns rt self s = Inr (d, s1)"
    using c by (cases "columns rt self s") (auto simp: call_normal)
  obtain d' h where hk: "after_build_version_table_columns rt self d (cols s1) = Inr (d', h)"
    using c co by (cases "after_build_version_table_columns rt self d (cols s1)")
      (auto simp: call_normal)
  from columns_frame [OF co] have fr: "tabs s1 = tabs s" "tables s1 = tables s" by simp_all
  let ?s2 = "s1\<lparr>cols := h\<rparr>"
  have tn: "table_name rt self ?s2 = table_name rt self s"
    by (rule table_name_tabs) (simp add: fr)
  obtain nm where nm: "table_name rt self s = Inr nm"
    using c co hk tn by (cases "table_name rt self s") (auto simp: call_normal)
  let ?md = "tbl_metadata (tabs s ! parent_table self)"
  have "sa_Table nm ?md d' False ?s2 = Inr (t, s')"
    using c co hk tn nm by (simp add: call_normal fr)
  from sa_Table_new [OF this] have
    n: "tables s (?md, nm) = None" "t = length (tabs s)"
       "s' = ?s2\<lparr>tabs := tabs s @ [\<lparr>tbl_name = nm, tbl_c = d', tbl_metadata = ?md\<rparr>],
                  tables := (tables s)((?md, nm) \<mapsto> length (tabs s))\<rparr>"
    by (simp_all add: fr)
  from table_name_Inr [OF nm] obtain tmpl where
    tm: "option self ''table_name'' = Inr (Str tmpl)"
        "str_mod rt tmpl (tbl_name (tabs s ! parent_table self)) = Inr nm"
    by blast
  have "option self ''table_name'' = Inr (Str tmpl) \<and>
         str_mod rt tmpl (tbl_name (tabs s ! parent_table self)) = Inr nm \<and>
         tbl_name (tabs s' ! t) = nm \<and>
         tbl_metadata (tabs s' ! t) = ?md \<and>
         tables s (?md, nm) = None \<and>
         tables s' (?md, nm) = Some t \<and>
         t = length (tabs s)"
    using tm n(1,2) by (simp add: n(3))
  then show "\<exists>tmpl nm.
         option self ''table_name'' = Inr (Str tmpl) \<and>
         str_mod rt tmpl (tbl_name (tabs s ! parent_table self)) = Inr nm \<and>
         tbl_name (tabs s' ! t) = nm \<and>
         tbl_metadata (tabs s' ! t) = tbl_metadata (tabs s ! parent_table self) \<and>
         tables s (tbl_metadata (tabs s ! parent_table self), nm) = None \<and>
         tables s' (tbl_metadata (tabs s ! parent_table self), nm) = Some t \<and>
         t = length (tabs s)"
    by - (rule exI [where x = tmpl], rule exI [where x = nm], assumption)
next
  assume co: "columns rt self s = Inr (data, s1)"
    and hk: "after_build_version_table_columns rt self data (cols s1) = Inr (data', h)"
    and nm: "table_name rt self s = Inr name0"
    and ex: "tables s (tbl_metadata (tabs s ! parent_table self), name0) = Some t0"
  from columns_frame [OF co] have fr: "tabs s1 = tabs s" "tables s1 = tables s" by simp_all
  have tn: "table_name rt self (s1\<lparr>cols := h\<rparr>) = table_name rt self s"
    by (rule table_name_tabs) (simp add: fr)
  show "call rt self None s = Inl CatalogConflictError"
    using co hk nm ex tn by (simp add: call_normal fr sa_Table_def)
qed

theorem normal_mode_table_name_witness:
  "(\<exists>t s'. call no_plugins (table_only (Str ''flat'')) None invoice = Inr (t, s') \<and>
      tbl_name (tabs s' ! t) = ''invoice_version'' \<and>
      tbl_metadata (tabs s' ! t) = 0 \<and>
      tables invoice (0, ''invoice_version'') = None \<and>
      tables s' (0, ''invoice_version'') = Some t) \<and>
   (\<exists>data s1.
      columns no_plugins (table_only (Str ''flat'')) versioned = Inr (data, s1) \<and>
      after_build_version_table_columns no_plugins (table_only (Str ''flat'')) data (cols s1) =
        Inr (data, cols s1) \<and>
      table_name no_plugins (table_only (Str ''flat'')) versioned = Inr ''invoice_version'' \<and>
      tables versioned (tbl_metadata (tabs versioned ! parent_table (table_only (Str ''flat''))),
        ''invoice_version'') = Some 1 \<and>
      call no_plugins (table_only (Str ''flat'')) None versioned = Inl CatalogConflictError)"
proof -
  let ?self = "table_only (Str ''flat'')"
  have md: "tbl_metadata (tabs invoice ! parent_table ?self) = 0"
    "tbl_name (tabs invoice ! parent_table ?self) = ''invoice''"
    by (simp_all add: invoice_def table_only_def)
  have op: "option ?self ''table_name'' = Inr (Str ''%s_version'')"
    by (simp add: option_def table_only_def defaults_def)
  have fm: "str_mod no_plugins ''%s_version'' ''invoice'' = Inr ''invoice_version''"
    by (simp add: no_plugins_def)
  have tn: "table_name no_plugins ?self invoice = Inr ''invoice_version''"
    by (simp add: table_name_def op md fm)
  obtain data0 s0 where c0: "columns no_plugins ?self invoice = Inr (data0, s0)"
    by (simp add: scenario_defs builder_defs)
  have fr0: "tabs s0 = tabs invoice" "tables s0 = tables invoice"
    using columns_frame [OF c0] by simp_all
  have hk0: "after_build_version_table_columns no_plugins ?self data0 (cols s0) =
      Inr (data0, cols s0)"
    by (simp add: no_plugins_def)
  have tn0: "table_name no_plugins ?self s0 = Inr ''invoice_version''"
    using table_name_tabs [of s0 invoice no_plugins ?self] fr0 tn by simp
  have free: "tables invoice (0, ''invoice_version'') = None" by (simp add: invoice_def)
  have "\<exists>t s'. call no_plugins ?self None invoice = Inr (t, s')"
    using free by (simp add: call_normal c0 hk0 tn0 fr0 md sa_Table_def)
  then obtain t s' where r: "call no_plugins ?self None invoice = Inr (t, s')" by blast
  from normal_mode_table_name [of no_plugins ?self invoice t s'] r
  obtain tmpl nm where
    e: "option ?self ''table_name'' = Inr (Str tmpl)"
       "str_mod no_plugins tmpl (tbl_name (tabs invoice ! parent_table ?self)) = Inr nm"
       "tbl_name (tabs s' ! t) = nm"
       "tbl_metadata (tabs s' ! t) = tbl_metadata (tabs invoice ! parent_table ?self)"
       "tables invoice (tbl_metadata (tabs invoice ! parent_table ?self), nm) = None"
       "tables s' (tbl_metadata (tabs invoice ! parent_table ?self), nm) = Some t"
    by blast
  from e(1) op have "tmpl = ''%s_version''" by simp
  with e(2) fm md have nm: "nm = ''invoice_version''" by simp
  have 1: "\<exists>t s'. call no_plugins ?self None invoice = Inr (t, s') \<and>
      tbl_name (tabs s' ! t) = ''invoice_version'' \<and>
      tbl_metadata (tabs s' ! t) = 0 \<and>
      tables invoice (0, ''invoice_version'') = None \<and>
      tables s' (0, ''invoice_version'') = Some t"
    using r e(3-6) nm md
    by - (rule exI [where x = t], rule exI [where x = s'], simp)
  have mdv: "tbl_metadata (tabs versioned ! parent_table ?self) = 0"
    "tbl_name (tabs versioned ! parent_table ?self) = ''invoice''"
    by (simp_all add: versioned_def table_only_def)
  obtain data s1 where c1: "columns no_plugins ?self versioned = Inr (data, s1)"
    by (simp add: versioned_def scenario_defs builder_defs)
  have hk1: "after_build_version_table_columns no_plugins ?self data (cols s1) =
      Inr (data, cols s1)"
    by (simp add: no_plugins_def)
  have tnv: "table_name no_plugins ?self versioned = Inr ''invoice_version''"
    by (simp add: table_name_def op mdv fm)
  have tk: "tables versioned (tbl_metadata (tabs versioned ! parent_table ?self),
        ''invoice_version'') = Some 1"
    by (simp add: versioned_def table_only_def)
  from normal_mode_table_name [of no_plugins ?self versioned _ _ data s1 data "cols s1"
      "''invoice_version''" 1] c1 hk1 tnv tk
  have cf: "call no_plugins ?self None versioned = Inl CatalogConflictError" by blast
  have 2: "\<exists>data s1.
      columns no_plugins ?self versioned = Inr (data, s1) \<and>
      after_build_version_table_columns no_plugins ?self data (cols s1) = Inr (data, cols s1) \<and>
      table_name no_plugins ?self versioned = Inr ''invoice_version'' \<and>
      tables versioned (tbl_metadata (tabs versioned ! parent_table ?self),
        ''invoice_version'') = Some 1 \<and>
      call no_plugins ?self None versioned = Inl CatalogConflictError"
    using c1 hk1 tnv tk cf
    by - (rule exI [where x = data], rule exI [where x = s1], intro conjI)
  from 1 2 show ?thesis by (rule conjI)
qed

subsection \<open>The column collection of the built table\<close>

























end
